theory Spec2Isabelle
  imports Main "HOL-Library.Word"
begin

section \<open>Resource: a value wrapper around one int\<close>

text \<open>
  The C++ \<open>int\<close> is a 32-bit machine integer. The class only stores and copies it, so no
  arithmetic (and no overflow) occurs anywhere in the file. The data member \<open>i_\<close> of the
  source is the field \<open>i_val\<close> here (a name cannot end in an underscore).
\<close>

type_synonym cint = "32 word"

record Resource =
  i_val :: cint

text \<open>\<open>explicit Resource( int i )\<close>\<close>

definition Resource_ctor :: "cint \<Rightarrow> Resource" where
  "Resource_ctor i = \<lparr>i_val = i\<rparr>"

text \<open>\<open>Resource( Resource const& other )\<close>\<close>

definition Resource_copy_ctor :: "Resource \<Rightarrow> Resource" where
  "Resource_copy_ctor other = \<lparr>i_val = i_val other\<rparr>"

text \<open>\<open>Resource& operator=( Resource const& other )\<close>: the new value of \<open>*this\<close>.\<close>

definition Resource_copy_assign :: "Resource \<Rightarrow> Resource \<Rightarrow> Resource" where
  "Resource_copy_assign this other = this\<lparr>i_val := i_val other\<rparr>"

text \<open>
  \<open>Resource( Resource&& other )\<close>: \<open>std::move(other.i_)\<close> is a cast, and initialising an
  \<open>int\<close> from an rvalue \<open>int\<close> reads it. The result is the pair of the new object and the
  donor as the constructor leaves it.
\<close>

definition Resource_move_ctor :: "Resource \<Rightarrow> Resource \<times> Resource" where
  "Resource_move_ctor other = (\<lparr>i_val = i_val other\<rparr>, other)"

text \<open>\<open>Resource& operator=( Resource&& other )\<close>: the new \<open>*this\<close> and the donor afterwards.\<close>

definition Resource_move_assign :: "Resource \<Rightarrow> Resource \<Rightarrow> Resource \<times> Resource" where
  "Resource_move_assign this other = (this\<lparr>i_val := i_val other\<rparr>, other)"

definition Resource_get :: "Resource \<Rightarrow> cint" where
  "Resource_get this = i_val this"

definition Resource_set :: "Resource \<Rightarrow> cint \<Rightarrow> Resource" where
  "Resource_set this i = this\<lparr>i_val := i\<rparr>"


section \<open>ResourceOwner and the store it lives in\<close>

text \<open>
  A \<open>Resource*\<close> is \<open>None\<close> (the null pointer) or \<open>Some a\<close>, where \<open>a\<close> names one
  allocation made by \<open>new\<close>. A \<open>ResourceOwner\<close> object is named by the address of its
  storage, since \<open>operator=\<close> compares \<open>this\<close> with \<open>&other\<close> and the two references of an
  assignment or a swap may denote the same object.
\<close>

type_synonym addr = nat
type_synonym oref = nat

record ResourceOwner =
  m_id :: cint
  m_name :: string
  m_resource :: "addr option"

text \<open>
  The program state:
  \<^item> \<open>objs\<close>: the storage of ResourceOwner objects, \<open>live\<close>: which of them hold an object
    whose lifetime has begun and not ended;
  \<^item> \<open>heap\<close>: the Resource allocations that \<open>new\<close> has made and \<open>delete\<close> has not released;
  \<^item> \<open>next_addr\<close>: the allocations made so far are \<open>0 ..< next_addr\<close> (every \<open>new\<close> names
    its allocation afresh);
  \<^item> \<open>free_store\<close>: how many more Resources the free store can hold; \<open>new\<close> throws
    \<open>std::bad_alloc\<close> when it is exhausted (a copy of a \<open>std::string\<close> may take memory from
    the free store too, see \<open>string_copy\<close>);
  \<^item> \<open>released\<close>: the log of the allocations that \<open>delete\<close> has released, in order.
\<close>

record state =
  objs :: "oref \<Rightarrow> ResourceOwner"
  live :: "oref set"
  heap :: "addr \<rightharpoonup> Resource"
  next_addr :: addr
  free_store :: nat
  released :: "addr list"

text \<open>
  Undefined behaviour of the C++ program: \<open>delete\<close> of a pointer that is not a live
  allocation, access through such a pointer, access through the null pointer, and the use
  of a ResourceOwner outside its lifetime (or construction over a live one).
\<close>

datatype ub = DoubleDelete | DanglingAccess | NullAccess | NotAnObject

text \<open>
  An operation returns a value, throws (the only exception is \<open>std::bad_alloc\<close>, from
  \<open>new Resource\<close> or from the copy of a \<open>std::string\<close>; the state is the one at the throw), or
  has undefined behaviour.
\<close>

datatype 'a outcome = Returned 'a state | Thrown state | Undefined ub

definition and_then :: "'a outcome \<Rightarrow> ('a \<Rightarrow> state \<Rightarrow> 'b outcome) \<Rightarrow> 'b outcome" where
  "and_then r f = (case r of Returned v s \<Rightarrow> f v s | Thrown s \<Rightarrow> Thrown s | Undefined u \<Rightarrow> Undefined u)"

text \<open>
  \<open>new Resource{ init }\<close>: the allocation function is called first and throws when the free
  store is exhausted; then the initialiser is evaluated and the Resource built from it in the
  new storage.
\<close>

definition new_Resource :: "(state \<Rightarrow> Resource outcome) \<Rightarrow> state \<Rightarrow> addr outcome" where
  "new_Resource init st =
     (if free_store st = 0 then Thrown st
      else and_then (init st) (\<lambda>r s.
             Returned (next_addr s)
               (s\<lparr>heap := (heap s)(next_addr s \<mapsto> r),
                   next_addr := Suc (next_addr s),
                   free_store := free_store s - 1\<rparr>)))"

text \<open>\<open>delete p\<close>: nothing for the null pointer.\<close>

definition delete_Resource :: "addr option \<Rightarrow> state \<Rightarrow> unit outcome" where
  "delete_Resource p st =
     (case p of
        None \<Rightarrow> Returned () st
      | Some a \<Rightarrow>
          (case heap st a of
             None \<Rightarrow> Undefined DoubleDelete
           | Some r \<Rightarrow>
               Returned () (st\<lparr>heap := (heap st)(a := None),
                               free_store := Suc (free_store st),
                               released := released st @ [a]\<rparr>)))"

text \<open>\<open>*p\<close>\<close>

definition deref :: "addr option \<Rightarrow> state \<Rightarrow> Resource outcome" where
  "deref p st =
     (case p of
        None \<Rightarrow> Undefined NullAccess
      | Some a \<Rightarrow> (case heap st a of None \<Rightarrow> Undefined DanglingAccess | Some r \<Rightarrow> Returned r st))"

text \<open>The initialiser \<open>Resource{ *p }\<close>: the copy constructor on the Resource behind \<open>p\<close>.\<close>

definition copy_of :: "addr option \<Rightarrow> state \<Rightarrow> Resource outcome" where
  "copy_of p st = and_then (deref p st) (\<lambda>r s. Returned (Resource_copy_ctor r) s)"

text \<open>
  The copy of a \<open>std::string\<close> (the copy constructor in a member initialiser, or the copy
  assignment \<open>m_name = other.m_name\<close>) may need memory from the free store. Whether it does
  is the matter of the standard library, which is not part of the source (the small-string
  buffer, the capacity the target already holds, the buffer it gives back), so the
  operations that copy a name take what happens as a parameter: the copy throws
  \<open>std::bad_alloc\<close>, with no effect on the target string, or it is made and leaves a free
  store that can hold \<open>f\<close> more Resources.
\<close>

datatype name_copy = NameThrows | NameCopied nat

definition string_copy :: "name_copy \<Rightarrow> state \<Rightarrow> unit outcome" where
  "string_copy nc st =
     (case nc of
        NameThrows \<Rightarrow> Thrown st
      | NameCopied f \<Rightarrow> Returned () (st\<lparr>free_store := f\<rparr>))"

text \<open>Writes to the three data members of the object at \<open>this\<close>.\<close>

definition set_m_id :: "oref \<Rightarrow> cint \<Rightarrow> state \<Rightarrow> state" where
  "set_m_id this v st = st\<lparr>objs := (objs st)(this := (objs st this)\<lparr>m_id := v\<rparr>)\<rparr>"

definition set_m_name :: "oref \<Rightarrow> string \<Rightarrow> state \<Rightarrow> state" where
  "set_m_name this v st = st\<lparr>objs := (objs st)(this := (objs st this)\<lparr>m_name := v\<rparr>)\<rparr>"

definition set_m_resource :: "oref \<Rightarrow> addr option \<Rightarrow> state \<Rightarrow> state" where
  "set_m_resource this v st = st\<lparr>objs := (objs st)(this := (objs st this)\<lparr>m_resource := v\<rparr>)\<rparr>"

text \<open>The lifetime of the object at \<open>this\<close> begins (its constructor has completed).\<close>

definition begin_lifetime :: "oref \<Rightarrow> state \<Rightarrow> state" where
  "begin_lifetime this st = st\<lparr>live := insert this (live st)\<rparr>"

definition end_lifetime :: "oref \<Rightarrow> state \<Rightarrow> state" where
  "end_lifetime this st = st\<lparr>live := live st - {this}\<rparr>"

text \<open>
  \<open>ResourceOwner( int id, std::string const& name, Resource* resource )\<close>: the members are
  initialised in the order of their declaration. When the copy of the name throws, the
  lifetime of the object never begins, and nobody deletes \<open>resource\<close>.
\<close>

definition ResourceOwner_ctor ::
  "oref \<Rightarrow> cint \<Rightarrow> string \<Rightarrow> addr option \<Rightarrow> name_copy \<Rightarrow> state \<Rightarrow> unit outcome" where
  "ResourceOwner_ctor this ident name resource nc st =
     (if this \<in> live st then Undefined NotAnObject
      else
        let s1 = set_m_id this ident st
        in and_then (string_copy nc s1) (\<lambda>_ s2.
             let s3 = set_m_name this name s2;
                 s4 = set_m_resource this resource s3
             in Returned () (begin_lifetime this s4)))"

text \<open>\<open>~ResourceOwner()\<close>\<close>

definition ResourceOwner_dtor :: "oref \<Rightarrow> state \<Rightarrow> unit outcome" where
  "ResourceOwner_dtor this st =
     (if this \<notin> live st then Undefined NotAnObject
      else and_then (delete_Resource (m_resource (objs st this)) st)
             (\<lambda>_ s. Returned () (end_lifetime this s)))"

text \<open>
  \<open>ResourceOwner( ResourceOwner const& other )\<close>: \<open>m_id\<close> and \<open>m_name\<close> are initialised from
  \<open>other\<close>, \<open>m_resource\<close> by its default member initialiser \<open>nullptr\<close>; the body then
  allocates the copy when \<open>other\<close> has a resource. When the copy of the name or \<open>new\<close>
  throws, the lifetime of the object never begins.
\<close>

definition ResourceOwner_copy_ctor :: "oref \<Rightarrow> oref \<Rightarrow> name_copy \<Rightarrow> state \<Rightarrow> unit outcome" where
  "ResourceOwner_copy_ctor this other nc st =
     (if this \<in> live st \<or> other \<notin> live st then Undefined NotAnObject
      else
        let s1 = set_m_id this (m_id (objs st other)) st
        in and_then (string_copy nc s1) (\<lambda>_ s2.
             let s3 = set_m_name this (m_name (objs s2 other)) s2;
                 s4 = set_m_resource this None s3
             in if m_resource (objs s4 other) \<noteq> None then
                  and_then (new_Resource (copy_of (m_resource (objs s4 other))) s4) (\<lambda>a s5.
                    Returned () (begin_lifetime this (set_m_resource this (Some a) s5)))
                else Returned () (begin_lifetime this s4)))"

text \<open>
  \<open>ResourceOwner& operator=( ResourceOwner const& other )\<close>, the manual solution of the
  source. The copy assignment of the name comes after the assignment of \<open>m_id\<close> and before
  anything is done to the resource. The value returned is the reference \<open>*this\<close>.
\<close>

definition ResourceOwner_copy_assign :: "oref \<Rightarrow> oref \<Rightarrow> name_copy \<Rightarrow> state \<Rightarrow> oref outcome" where
  "ResourceOwner_copy_assign this other nc st =
     (if this \<notin> live st \<or> other \<notin> live st then Undefined NotAnObject
      else if this \<noteq> other then
        let s1 = set_m_id this (m_id (objs st other)) st
        in and_then (string_copy nc s1) (\<lambda>_ s1'.
             let s2 = set_m_name this (m_name (objs s1' other)) s1'
             in if m_resource (objs s2 this) \<noteq> None \<and> m_resource (objs s2 other) \<noteq> None then
                  and_then (deref (m_resource (objs s2 other)) s2) (\<lambda>r' s3.
                  and_then (deref (m_resource (objs s3 this)) s3) (\<lambda>r s4.
                    (case m_resource (objs s4 this) of
                       None \<Rightarrow> Undefined NullAccess
                     | Some p \<Rightarrow>
                         Returned this (s4\<lparr>heap := (heap s4)(p \<mapsto> Resource_copy_assign r r')\<rparr>))))
                else
                  and_then (delete_Resource (m_resource (objs s2 this)) s2) (\<lambda>_ s3.
                    let s4 = set_m_resource this None s3
                    in if m_resource (objs s4 other) \<noteq> None then
                         and_then (new_Resource (copy_of (m_resource (objs s4 other))) s4) (\<lambda>a s5.
                           Returned this (set_m_resource this (Some a) s5))
                       else Returned this s4))
      else Returned this st)"

text \<open>
  \<open>ResourceOwner( ResourceOwner&& other ) noexcept\<close>. The C++ standard leaves a moved-from
  \<open>std::string\<close> valid with an unspecified value: \<open>leftover\<close> is the value the library
  gives it, and nothing below depends on which one it is.
\<close>

definition ResourceOwner_move_ctor :: "oref \<Rightarrow> oref \<Rightarrow> string \<Rightarrow> state \<Rightarrow> unit outcome" where
  "ResourceOwner_move_ctor this other leftover st =
     (if this \<in> live st \<or> other \<notin> live st then Undefined NotAnObject
      else
        let s1 = st\<lparr>objs := (objs st)(this :=
                   \<lparr>m_id = m_id (objs st other), m_name = m_name (objs st other),
                    m_resource = m_resource (objs st other)\<rparr>)\<rparr>;
            s2 = set_m_name other leftover s1;
            s3 = set_m_resource other None s2
        in Returned () (begin_lifetime this s3))"

text \<open>
  \<open>ResourceOwner& operator=( ResourceOwner&& other ) noexcept\<close>, the manual solution of the
  source: there is no test of \<open>this\<close> against \<open>&other\<close>, and every read of \<open>other\<close> sees the
  writes made to \<open>*this\<close> before it. The move assignment of the string gives \<open>m_name\<close> the
  donor's characters and leaves the donor with \<open>leftover\<close> (when both are the same string,
  that string holds \<open>leftover\<close>).
\<close>

definition ResourceOwner_move_assign :: "oref \<Rightarrow> oref \<Rightarrow> string \<Rightarrow> state \<Rightarrow> oref outcome" where
  "ResourceOwner_move_assign this other leftover st =
     (if this \<notin> live st \<or> other \<notin> live st then Undefined NotAnObject
      else
        and_then (delete_Resource (m_resource (objs st this)) st) (\<lambda>_ s1.
          let s2 = set_m_id this (m_id (objs s1 other)) s1;
              s3 = set_m_name other leftover (set_m_name this (m_name (objs s2 other)) s2);
              s4 = set_m_resource this (m_resource (objs s3 other)) s3;
              s5 = set_m_resource other None s4
          in Returned this s5))"

text \<open>
  \<open>void swap( ResourceOwner& other ) noexcept\<close>: three calls of \<open>swap\<close> on the members,
  each reading both members before it writes them.
\<close>

definition ResourceOwner_swap :: "oref \<Rightarrow> oref \<Rightarrow> state \<Rightarrow> unit outcome" where
  "ResourceOwner_swap this other st =
     (if this \<notin> live st \<or> other \<notin> live st then Undefined NotAnObject
      else
        let s1 = set_m_id other (m_id (objs st this)) (set_m_id this (m_id (objs st other)) st);
            s2 = set_m_name other (m_name (objs s1 this)) (set_m_name this (m_name (objs s1 other)) s1);
            s3 = set_m_resource other (m_resource (objs s2 this))
                   (set_m_resource this (m_resource (objs s2 other)) s2)
        in Returned () s3)"

text \<open>The free function \<open>void swap( ResourceOwner& a, ResourceOwner& b ) noexcept\<close>\<close>

definition swap :: "oref \<Rightarrow> oref \<Rightarrow> state \<Rightarrow> unit outcome" where
  "swap a b st = ResourceOwner_swap a b st"

text \<open>The accessors \<open>id()\<close>, \<open>name()\<close> and \<open>resource()\<close>.\<close>

definition ResourceOwner_id :: "oref \<Rightarrow> state \<Rightarrow> cint" where
  "ResourceOwner_id this st = m_id (objs st this)"

definition ResourceOwner_name :: "oref \<Rightarrow> state \<Rightarrow> string" where
  "ResourceOwner_name this st = m_name (objs st this)"

definition ResourceOwner_resource :: "oref \<Rightarrow> state \<Rightarrow> addr option" where
  "ResourceOwner_resource this st = m_resource (objs st this)"

text \<open>
  The two expressions through which \<open>main\<close> reads and writes the value of an owner's
  resource: \<open>owner.resource()->get()\<close> and \<open>owner.resource()->set(v)\<close>.
\<close>

definition resource_get :: "oref \<Rightarrow> state \<Rightarrow> cint outcome" where
  "resource_get this st =
     (if this \<notin> live st then Undefined NotAnObject
      else and_then (deref (ResourceOwner_resource this st) st) (\<lambda>r s. Returned (Resource_get r) s))"

definition resource_set :: "oref \<Rightarrow> cint \<Rightarrow> state \<Rightarrow> unit outcome" where
  "resource_set this v st =
     (if this \<notin> live st then Undefined NotAnObject
      else and_then (deref (ResourceOwner_resource this st) st) (\<lambda>r s.
             (case ResourceOwner_resource this s of
                None \<Rightarrow> Undefined NullAccess
              | Some p \<Rightarrow> Returned () (s\<lparr>heap := (heap s)(p \<mapsto> Resource_set r v)\<rparr>))))"


section \<open>Client programs\<close>

text \<open>
  A client creates an owner as \<open>main\<close> does, \<open>ResourceOwner owner1( 1, "id1", new Resource(101) )\<close>,
  or with a null pointer in place of the \<open>new\<close> expression. The \<open>new\<close> expression is an
  argument of the constructor and is evaluated before the constructor runs.
\<close>

definition construct ::
  "oref \<Rightarrow> cint \<Rightarrow> string \<Rightarrow> cint option \<Rightarrow> name_copy \<Rightarrow> state \<Rightarrow> unit outcome" where
  "construct this ident name v nc st =
     (case v of
        None \<Rightarrow> ResourceOwner_ctor this ident name None nc st
      | Some i \<Rightarrow>
          and_then (new_Resource (Returned (Resource_ctor i)) st) (\<lambda>a s.
            ResourceOwner_ctor this ident name (Some a) nc s))"

text \<open>
  The operations a client program is made of. Each names the storage of the objects it
  works on; the two move operations carry the value their moved-from string is left with,
  the two copy operations what happens to the copy of the name. A creation is one whose
  copy of the name is made (leaving a free store for \<open>f\<close> Resources): one whose copy of the
  name throws leaves the Resource the caller allocated without any owner, before any of the
  operations below has taken part (see \<open>construct_name_throws_leaks\<close>).
\<close>

datatype op =
    Construct oref cint string "cint option" nat
  | CopyConstruct oref oref name_copy
  | MoveConstruct oref oref string
  | CopyAssign oref oref name_copy
  | MoveAssign oref oref string
  | Swap oref oref

fun step :: "op \<Rightarrow> state \<Rightarrow> unit outcome" where
  "step (Construct this ident name v f) st = construct this ident name v (NameCopied f) st"
| "step (CopyConstruct this other nc) st = ResourceOwner_copy_ctor this other nc st"
| "step (MoveConstruct this other leftover) st = ResourceOwner_move_ctor this other leftover st"
| "step (CopyAssign this other nc) st =
     and_then (ResourceOwner_copy_assign this other nc st) (\<lambda>_ s. Returned () s)"
| "step (MoveAssign this other leftover) st =
     and_then (ResourceOwner_move_assign this other leftover st) (\<lambda>_ s. Returned () s)"
| "step (Swap a b) st = swap a b st"

text \<open>
  A program runs its operations in order. An exception is caught by the client, which goes
  on from the state the throwing operation left; a program that ends at its first exception
  is the program cut after the throwing operation. Undefined behaviour ends the run.
\<close>

fun run :: "op list \<Rightarrow> state \<Rightarrow> ub + state" where
  "run [] st = Inr st"
| "run (x # xs) st =
     (case step x st of
        Returned _ s \<Rightarrow> run xs s
      | Thrown s \<Rightarrow> run xs s
      | Undefined u \<Rightarrow> Inl u)"

text \<open>The destructors of the objects at \<open>xs\<close>, in that order.\<close>

fun destroy_all :: "oref list \<Rightarrow> state \<Rightarrow> ub + state" where
  "destroy_all [] st = Inr st"
| "destroy_all (x # xs) st =
     (case ResourceOwner_dtor x st of
        Returned _ s \<Rightarrow> destroy_all xs s
      | Thrown s \<Rightarrow> destroy_all xs s
      | Undefined u \<Rightarrow> Inl u)"


section \<open>The ownership discipline\<close>

text \<open>The handle through which a live owner references its resource.\<close>

definition handle :: "state \<Rightarrow> oref \<Rightarrow> addr option" where
  "handle st x = (if x \<in> live st then ResourceOwner_resource x st else None)"

text \<open>
  For handles \<open>h\<close>, live allocations \<open>H\<close>, \<open>n\<close> allocations made and the release log \<open>rel\<close>:
  no handle dangles, no two owners hold the same allocation, every live allocation is held
  by an owner, and the allocations made are the live ones and the ones released, each of
  these released once.
\<close>

definition owned_once :: "(oref \<Rightarrow> addr option) \<Rightarrow> (addr \<rightharpoonup> Resource) \<Rightarrow> addr \<Rightarrow> addr list \<Rightarrow> bool" where
  "owned_once h H n rel \<longleftrightarrow>
     (\<forall>x a. h x = Some a \<longrightarrow> H a \<noteq> None) \<and>
     (\<forall>x y a. h x = Some a \<and> h y = Some a \<longrightarrow> x = y) \<and>
     (\<forall>a. H a \<noteq> None \<longrightarrow> (\<exists>x. h x = Some a)) \<and>
     (\<forall>a. H a \<noteq> None \<longrightarrow> a < n) \<and>
     distinct rel \<and>
     (\<forall>a. a \<in> set rel \<longleftrightarrow> a < n \<and> H a = None)"

definition ownership_ok :: "state \<Rightarrow> bool" where
  "ownership_ok st = owned_once (handle st) (heap st) (next_addr st) (released st)"


text \<open>
  What an operation started in \<open>st\<close> must leave: the discipline in the state it returns
  or throws in, no allocation forgotten, and no undefined behaviour but that of a client that
  uses an object outside its lifetime.
\<close>

definition keeps_ownership :: "state \<Rightarrow> 'a outcome \<Rightarrow> bool" where
  "keeps_ownership st r =
     (case r of
        Returned _ s \<Rightarrow> ownership_ok s \<and> next_addr st \<le> next_addr s
      | Thrown s \<Rightarrow> ownership_ok s \<and> next_addr st \<le> next_addr s
      | Undefined u \<Rightarrow> u = NotAnObject)"


section \<open>Example states\<close>

text \<open>
  The state before \<open>main\<close> creates anything, with a free store of \<open>n\<close> Resources. Storage
  that holds no object reads as the default member initialisers.
\<close>

definition start_state :: "nat \<Rightarrow> state" where
  "start_state n =
     \<lparr>objs = (\<lambda>_. \<lparr>m_id = 0, m_name = [], m_resource = None\<rparr>), live = {}, heap = Map.empty,
      next_addr = 0, free_store = n, released = []\<rparr>"

text \<open>
  Four owners, as \<open>ResourceOwner o1( 1, "id1", new Resource(101) )\<close>,
  \<open>ResourceOwner o2( 2, "id2", nullptr )\<close>, \<open>ResourceOwner o3( 3, "id3", new Resource(303) )\<close> and
  \<open>ResourceOwner o4( 4, "id4", nullptr )\<close> leave them, with a free store of \<open>n\<close> Resources.
\<close>

definition demo_state :: "nat \<Rightarrow> state" where
  "demo_state n =
     \<lparr>objs = (\<lambda>_. \<lparr>m_id = 0, m_name = [], m_resource = None\<rparr>)
               (1 := \<lparr>m_id = 1, m_name = ''id1'', m_resource = Some 0\<rparr>,
                2 := \<lparr>m_id = 2, m_name = ''id2'', m_resource = None\<rparr>,
                3 := \<lparr>m_id = 3, m_name = ''id3'', m_resource = Some 1\<rparr>,
                4 := \<lparr>m_id = 4, m_name = ''id4'', m_resource = None\<rparr>),
      live = {1, 2, 3, 4},
      heap = [0 \<mapsto> Resource_ctor 101, 1 \<mapsto> Resource_ctor 303],
      next_addr = 2, free_store = n, released = []\<rparr>"

text \<open>
  The owner operations of \<open>main\<close>, in order, with \<open>owner1\<close>, \<open>owner2\<close> and \<open>owner3\<close>
  at storage 1, 2 and 3 and empty moved-from strings (the calls of \<open>set\<close> between them
  change no ownership and are left out; the names are short and their copies leave the free
  store as it is), and the state they end in when started with a free store of three
  Resources.
\<close>

definition main_ops :: "op list" where
  "main_ops = [Construct 1 1 ''id1'' (Some 101) 2, CopyConstruct 2 1 (NameCopied 2),
               CopyAssign 2 1 (NameCopied 1), MoveConstruct 3 1 [], MoveAssign 1 2 []]"

definition main_end_state :: state where
  "main_end_state =
     \<lparr>objs = (\<lambda>_. \<lparr>m_id = 0, m_name = [], m_resource = None\<rparr>)
               (1 := \<lparr>m_id = 1, m_name = ''id1'', m_resource = Some 1\<rparr>,
                2 := \<lparr>m_id = 1, m_name = [], m_resource = None\<rparr>,
                3 := \<lparr>m_id = 1, m_name = ''id1'', m_resource = Some 0\<rparr>),
      live = {1, 2, 3},
      heap = [0 \<mapsto> Resource_ctor 101, 1 \<mapsto> Resource_ctor 101],
      next_addr = 2, free_store = 1, released = []\<rparr>"


section \<open>Basic facts about the operations\<close>

text \<open>What each write leaves of the state, and the primitives on the cases that occur.\<close>

lemma set_m_id_fields [simp]:
  "objs (set_m_id x v st) y = (if y = x then (objs st x)\<lparr>m_id := v\<rparr> else objs st y)"
  "live (set_m_id x v st) = live st" "heap (set_m_id x v st) = heap st"
  "next_addr (set_m_id x v st) = next_addr st" "free_store (set_m_id x v st) = free_store st"
  "released (set_m_id x v st) = released st"
  by (simp_all add: set_m_id_def)

lemma set_m_name_fields [simp]:
  "objs (set_m_name x v st) y = (if y = x then (objs st x)\<lparr>m_name := v\<rparr> else objs st y)"
  "live (set_m_name x v st) = live st" "heap (set_m_name x v st) = heap st"
  "next_addr (set_m_name x v st) = next_addr st" "free_store (set_m_name x v st) = free_store st"
  "released (set_m_name x v st) = released st"
  by (simp_all add: set_m_name_def)

lemma set_m_resource_fields [simp]:
  "objs (set_m_resource x v st) y = (if y = x then (objs st x)\<lparr>m_resource := v\<rparr> else objs st y)"
  "live (set_m_resource x v st) = live st" "heap (set_m_resource x v st) = heap st"
  "next_addr (set_m_resource x v st) = next_addr st" "free_store (set_m_resource x v st) = free_store st"
  "released (set_m_resource x v st) = released st"
  by (simp_all add: set_m_resource_def)

lemma begin_lifetime_fields [simp]:
  "objs (begin_lifetime x st) = objs st"
  "live (begin_lifetime x st) = insert x (live st)" "heap (begin_lifetime x st) = heap st"
  "next_addr (begin_lifetime x st) = next_addr st" "free_store (begin_lifetime x st) = free_store st"
  "released (begin_lifetime x st) = released st"
  by (simp_all add: begin_lifetime_def)

lemma end_lifetime_fields [simp]:
  "objs (end_lifetime x st) = objs st"
  "live (end_lifetime x st) = live st - {x}" "heap (end_lifetime x st) = heap st"
  "next_addr (end_lifetime x st) = next_addr st" "free_store (end_lifetime x st) = free_store st"
  "released (end_lifetime x st) = released st"
  by (simp_all add: end_lifetime_def)

lemma and_then_simps [simp]:
  "and_then (Returned v s) f = f v s"
  "and_then (Thrown s) f = Thrown s"
  "and_then (Undefined u) f = Undefined u"
  by (simp_all add: and_then_def)

lemma string_copy_simps [simp]:
  "string_copy NameThrows st = Thrown st"
  "string_copy (NameCopied f) st = Returned () (st\<lparr>free_store := f\<rparr>)"
  by (simp_all add: string_copy_def)

lemma delete_Resource_None [simp]: "delete_Resource None st = Returned () st"
  by (simp add: delete_Resource_def)

lemma delete_Resource_Some:
  "heap st a = Some r \<Longrightarrow>
   delete_Resource (Some a) st =
     Returned () (st\<lparr>heap := (heap st)(a := None), free_store := Suc (free_store st),
                     released := released st @ [a]\<rparr>)"
  by (simp add: delete_Resource_def)

lemma deref_Some: "heap st a = Some r \<Longrightarrow> deref (Some a) st = Returned r st"
  by (simp add: deref_def)

subsection \<open>The discipline under the changes of ownership\<close>

text \<open>
  An owner releases its allocation; an owner without one acquires the next allocation; an
  owner without one takes over the handle of another; two owners exchange their handles; the
  value stored in a live allocation changes.
\<close>

lemma owned_once_release:
  assumes "owned_once h H n rel" "h x = Some a"
  shows "owned_once (h(x := None)) (H(a := None)) n (rel @ [a])"
proof -
  have a: "H a \<noteq> None" "a < n" "a \<notin> set rel" and u: "\<And>y. h y = Some a \<Longrightarrow> y = x"
    using assms unfolding owned_once_def by blast+
  show ?thesis
    unfolding owned_once_def
  proof (intro conjI allI impI)
    fix y b assume "(h(x := None)) y = Some b"
    then have "y \<noteq> x" "h y = Some b" by (auto split: if_splits)
    then have "b \<noteq> a" "H b \<noteq> None" using u assms(1) unfolding owned_once_def by blast+
    then show "(H(a := None)) b \<noteq> None" by simp
  next
    fix y z b assume "(h(x := None)) y = Some b \<and> (h(x := None)) z = Some b"
    then have "h y = Some b" "h z = Some b" by (auto split: if_splits)
    then show "y = z" using assms(1) unfolding owned_once_def by blast
  next
    fix b assume "(H(a := None)) b \<noteq> None"
    then have b: "b \<noteq> a" "H b \<noteq> None" by (auto split: if_splits)
    then obtain y where "h y = Some b" using assms(1) unfolding owned_once_def by blast
    moreover from this b assms(2) have "y \<noteq> x" by auto
    ultimately show "\<exists>y. (h(x := None)) y = Some b" by auto
  next
    fix b assume "(H(a := None)) b \<noteq> None"
    then have "H b \<noteq> None" by (auto split: if_splits)
    then show "b < n" using assms(1) unfolding owned_once_def by blast
  next
    show "distinct (rel @ [a])" using a assms(1) unfolding owned_once_def by simp
  next
    fix b
    have "b \<in> set rel \<longleftrightarrow> b < n \<and> H b = None" using assms(1) unfolding owned_once_def by blast
    then show "b \<in> set (rel @ [a]) \<longleftrightarrow> b < n \<and> (H(a := None)) b = None" using a by auto
  qed
qed

lemma owned_once_acquire:
  assumes "owned_once h H n rel" "h x = None"
  shows "owned_once (h(x \<mapsto> n)) (H(n \<mapsto> r)) (Suc n) rel"
proof -
  have n: "H n = None" "n \<notin> set rel" and hn: "\<And>y. h y \<noteq> Some n"
    using assms(1) unfolding owned_once_def by (blast, force, blast)
  show ?thesis
    unfolding owned_once_def
  proof (intro conjI allI impI)
    fix y b assume "(h(x \<mapsto> n)) y = Some b"
    then have "b = n \<or> h y = Some b" by (auto split: if_splits)
    then show "(H(n \<mapsto> r)) b \<noteq> None" using assms(1) unfolding owned_once_def by auto
  next
    fix y z b assume "(h(x \<mapsto> n)) y = Some b \<and> (h(x \<mapsto> n)) z = Some b"
    then have "(y = x \<and> z = x) \<or> (h y = Some b \<and> h z = Some b)"
      using hn by (auto split: if_splits)
    then show "y = z" using assms(1) unfolding owned_once_def by blast
  next
    fix b assume "(H(n \<mapsto> r)) b \<noteq> None"
    then have "b = n \<or> (b \<noteq> n \<and> H b \<noteq> None)" by (auto split: if_splits)
    then show "\<exists>y. (h(x \<mapsto> n)) y = Some b"
    proof
      assume "b = n" then show ?thesis by auto
    next
      assume b: "b \<noteq> n \<and> H b \<noteq> None"
      then obtain y where y: "h y = Some b" using assms(1) unfolding owned_once_def by blast
      with assms(2) have "y \<noteq> x" by auto
      with y show ?thesis by auto
    qed
  next
    fix b assume "(H(n \<mapsto> r)) b \<noteq> None"
    then have "b = n \<or> H b \<noteq> None" by (auto split: if_splits)
    then show "b < Suc n" using assms(1) unfolding owned_once_def by (auto simp: less_Suc_eq)
  next
    show "distinct rel" using assms(1) unfolding owned_once_def by blast
  next
    fix b
    have "b \<in> set rel \<longleftrightarrow> b < n \<and> H b = None" using assms(1) unfolding owned_once_def by blast
    then show "b \<in> set rel \<longleftrightarrow> b < Suc n \<and> (H(n \<mapsto> r)) b = None"
      using n by (auto simp: less_Suc_eq)
  qed
qed

lemma owned_once_transfer:
  assumes "owned_once h H n rel" "h x = None"
  shows "owned_once (h(x := h y, y := None)) H n rel"
proof -
  let ?h = "h(x := h y, y := None)"
  have fwd: "\<exists>w. h w = Some b \<and> (w = y \<and> z = x \<or> w \<noteq> y \<and> z = w)" if "?h z = Some b" for z b
    using that assms(2) by (auto split: if_splits)
  have bwd: "\<exists>z. ?h z = Some b" if "h w = Some b" for w b
  proof (cases "w = y")
    case True
    with that assms(2) have "x \<noteq> y" by auto
    with True that have "?h x = Some b" by simp
    then show ?thesis ..
  next
    case False
    with that assms(2) have "?h w = Some b" by auto
    then show ?thesis ..
  qed
  show ?thesis
    unfolding owned_once_def
  proof (intro conjI allI impI)
    fix z b assume "?h z = Some b"
    then show "H b \<noteq> None" using fwd assms(1) unfolding owned_once_def by blast
  next
    fix z z' b assume "?h z = Some b \<and> ?h z' = Some b"
    then obtain w w' where "h w = Some b" "w = y \<and> z = x \<or> w \<noteq> y \<and> z = w"
      "h w' = Some b" "w' = y \<and> z' = x \<or> w' \<noteq> y \<and> z' = w'" using fwd by blast
    moreover from this have "w = w'" using assms(1) unfolding owned_once_def by blast
    ultimately show "z = z'" by blast
  next
    fix b assume "H b \<noteq> None"
    then show "\<exists>z. ?h z = Some b" using bwd assms(1) unfolding owned_once_def by blast
  qed (use assms(1) in \<open>unfold owned_once_def, blast+\<close>)
qed

lemma owned_once_swap:
  assumes "owned_once h H n rel"
  shows "owned_once (h(x := h y, y := h x)) H n rel"
proof -
  let ?h = "h(x := h y, y := h x)"
  let ?p = "\<lambda>z. if z = x then y else if z = y then x else z"
  have h: "?h z = h (?p z)" for z by simp
  have inj: "?p z = ?p z' \<Longrightarrow> z = z'" for z z' by (auto split: if_splits)
  have pp: "?p (?p z) = z" for z by simp
  show ?thesis
    unfolding owned_once_def h
  proof (intro conjI allI impI)
    fix z b assume "h (?p z) = Some b"
    then show "H b \<noteq> None" using assms unfolding owned_once_def by blast
  next
    fix z z' b assume "h (?p z) = Some b \<and> h (?p z') = Some b"
    then have "?p z = ?p z'" using assms unfolding owned_once_def by blast
    then show "z = z'" by (rule inj)
  next
    fix b assume "H b \<noteq> None"
    then obtain w where "h w = Some b" using assms unfolding owned_once_def by blast
    then have "h (?p (?p w)) = Some b" by (simp only: pp)
    then show "\<exists>z. h (?p z) = Some b" by blast
  qed (use assms in \<open>unfold owned_once_def, blast+\<close>)
qed

lemma owned_once_store:
  assumes "owned_once h H n rel" "H a \<noteq> None"
  shows "owned_once h (H(a \<mapsto> r)) n rel"
  using assms unfolding owned_once_def by (auto split: if_splits)

lemma owned_once_unique:
  "owned_once h H n rel \<Longrightarrow> H a \<noteq> None \<Longrightarrow> \<exists>!x. h x = Some a"
  unfolding owned_once_def by blast


section \<open>The operations in closed form\<close>

text \<open>
  The state each operation returns or throws in, branch by branch, for operands within their
  lifetime whose handles do not dangle.
\<close>

lemma copy_of_Some: "heap st a = Some r \<Longrightarrow> copy_of (Some a) st = Returned (Resource_copy_ctor r) st"
  by (simp add: copy_of_def deref_def)

lemma new_Resource_ok:
  "free_store st \<noteq> 0 \<Longrightarrow>
   new_Resource (Returned r) st = Returned (next_addr st)
     (st\<lparr>heap := (heap st)(next_addr st \<mapsto> r), next_addr := Suc (next_addr st),
         free_store := free_store st - 1\<rparr>)"
  by (simp add: new_Resource_def)

lemma new_Resource_fails: "free_store st = 0 \<Longrightarrow> new_Resource init st = Thrown st"
  by (simp add: new_Resource_def)

subsection \<open>Copy assignment\<close>

lemma copy_assign_name_throws:
  assumes "this \<in> live st" "other \<in> live st" "this \<noteq> other"
  shows "ResourceOwner_copy_assign this other NameThrows st =
     Thrown (st\<lparr>objs := (objs st)(this := (objs st this)\<lparr>m_id := m_id (objs st other)\<rparr>)\<rparr>)"
  using assms
  apply (simp add: ResourceOwner_copy_assign_def Let_def)
  apply (rule state.equality; simp add: fun_eq_iff)
  done

lemma copy_assign_both:
  assumes "this \<in> live st" "other \<in> live st" "this \<noteq> other"
    and "m_resource (objs st this) = Some p" "m_resource (objs st other) = Some q"
    and "heap st p = Some r" "heap st q = Some r'"
  shows "ResourceOwner_copy_assign this other (NameCopied f) st =
     Returned this
       (st\<lparr>objs := (objs st)(this := (objs st this)\<lparr>m_id := m_id (objs st other),
                                                  m_name := m_name (objs st other)\<rparr>),
           heap := (heap st)(p \<mapsto> Resource_copy_assign r r'), free_store := f\<rparr>)"
  using assms
  apply (simp add: ResourceOwner_copy_assign_def Let_def deref_Some)
  apply (rule state.equality; simp add: fun_eq_iff)
  done

lemma copy_assign_release:
  assumes "this \<in> live st" "other \<in> live st" "this \<noteq> other"
    and "m_resource (objs st this) = Some p" "m_resource (objs st other) = None"
    and "heap st p = Some r"
  shows "ResourceOwner_copy_assign this other (NameCopied f) st =
     Returned this
       (st\<lparr>objs := (objs st)(this := (objs st this)\<lparr>m_id := m_id (objs st other),
                                    m_name := m_name (objs st other), m_resource := None\<rparr>),
           heap := (heap st)(p := None), free_store := Suc f,
           released := released st @ [p]\<rparr>)"
  using assms
  apply (simp add: ResourceOwner_copy_assign_def Let_def delete_Resource_Some)
  apply (rule state.equality; simp add: fun_eq_iff)
  done

lemma copy_assign_allocate:
  assumes "this \<in> live st" "other \<in> live st" "this \<noteq> other"
    and "m_resource (objs st this) = None" "m_resource (objs st other) = Some q"
    and "heap st q = Some r'" "f \<noteq> 0"
  shows "ResourceOwner_copy_assign this other (NameCopied f) st =
     Returned this
       (st\<lparr>objs := (objs st)(this := (objs st this)\<lparr>m_id := m_id (objs st other),
                                    m_name := m_name (objs st other),
                                    m_resource := Some (next_addr st)\<rparr>),
           heap := (heap st)(next_addr st \<mapsto> Resource_copy_ctor r'),
           next_addr := Suc (next_addr st), free_store := f - 1\<rparr>)"
  using assms
  apply (simp add: ResourceOwner_copy_assign_def Let_def copy_of_Some new_Resource_def)
  apply (rule state.equality; simp add: fun_eq_iff)
  done

lemma copy_assign_bad_alloc:
  assumes "this \<in> live st" "other \<in> live st" "this \<noteq> other"
    and "m_resource (objs st this) = None" "m_resource (objs st other) = Some q"
  shows "ResourceOwner_copy_assign this other (NameCopied 0) st =
     Thrown
       (st\<lparr>objs := (objs st)(this := (objs st this)\<lparr>m_id := m_id (objs st other),
                                    m_name := m_name (objs st other), m_resource := None\<rparr>),
           free_store := 0\<rparr>)"
  using assms
  apply (simp add: ResourceOwner_copy_assign_def Let_def new_Resource_fails)
  apply (rule state.equality; simp add: fun_eq_iff)
  done

lemma copy_assign_neither:
  assumes "this \<in> live st" "other \<in> live st" "this \<noteq> other"
    and "m_resource (objs st this) = None" "m_resource (objs st other) = None"
  shows "ResourceOwner_copy_assign this other (NameCopied f) st =
     Returned this
       (st\<lparr>objs := (objs st)(this := (objs st this)\<lparr>m_id := m_id (objs st other),
                                    m_name := m_name (objs st other), m_resource := None\<rparr>),
           free_store := f\<rparr>)"
  using assms
  apply (simp add: ResourceOwner_copy_assign_def Let_def)
  apply (rule state.equality; simp add: fun_eq_iff)
  done

subsection \<open>Copy construction\<close>

lemma copy_ctor_name_throws:
  assumes "this \<notin> live st" "other \<in> live st"
  shows "ResourceOwner_copy_ctor this other NameThrows st =
     Thrown (st\<lparr>objs := (objs st)(this := (objs st this)\<lparr>m_id := m_id (objs st other)\<rparr>)\<rparr>)"
proof -
  from assms have "this \<noteq> other" by auto
  with assms show ?thesis
    apply (simp add: ResourceOwner_copy_ctor_def Let_def)
    apply (rule state.equality; simp add: fun_eq_iff)
    done
qed

lemma copy_ctor_null:
  assumes "this \<notin> live st" "other \<in> live st" "m_resource (objs st other) = None"
  shows "ResourceOwner_copy_ctor this other (NameCopied f) st =
     Returned ()
       (st\<lparr>objs := (objs st)(this := (objs st this)\<lparr>m_id := m_id (objs st other),
                                    m_name := m_name (objs st other), m_resource := None\<rparr>),
           live := insert this (live st), free_store := f\<rparr>)"
proof -
  from assms have "this \<noteq> other" by auto
  with assms show ?thesis
    apply (simp add: ResourceOwner_copy_ctor_def Let_def)
    apply (rule state.equality; simp add: fun_eq_iff)
    done
qed

lemma copy_ctor_allocate:
  assumes "this \<notin> live st" "other \<in> live st" "m_resource (objs st other) = Some q"
    and "heap st q = Some r" "f \<noteq> 0"
  shows "ResourceOwner_copy_ctor this other (NameCopied f) st =
     Returned ()
       (st\<lparr>objs := (objs st)(this := (objs st this)\<lparr>m_id := m_id (objs st other),
                                    m_name := m_name (objs st other),
                                    m_resource := Some (next_addr st)\<rparr>),
           live := insert this (live st),
           heap := (heap st)(next_addr st \<mapsto> Resource_copy_ctor r),
           next_addr := Suc (next_addr st), free_store := f - 1\<rparr>)"
proof -
  from assms have "this \<noteq> other" by auto
  with assms show ?thesis
    apply (simp add: ResourceOwner_copy_ctor_def Let_def copy_of_Some new_Resource_def)
    apply (rule state.equality; simp add: fun_eq_iff)
    done
qed

lemma copy_ctor_bad_alloc:
  assumes "this \<notin> live st" "other \<in> live st" "m_resource (objs st other) = Some q"
  shows "ResourceOwner_copy_ctor this other (NameCopied 0) st =
     Thrown
       (st\<lparr>objs := (objs st)(this := (objs st this)\<lparr>m_id := m_id (objs st other),
                                    m_name := m_name (objs st other), m_resource := None\<rparr>),
           free_store := 0\<rparr>)"
proof -
  from assms have "this \<noteq> other" by auto
  with assms show ?thesis
    apply (simp add: ResourceOwner_copy_ctor_def Let_def new_Resource_fails)
    apply (rule state.equality; simp add: fun_eq_iff)
    done
qed

subsection \<open>Move construction\<close>

lemma move_ctor_closed:
  assumes "this \<notin> live st" "other \<in> live st"
  shows "ResourceOwner_move_ctor this other leftover st =
     Returned ()
       (st\<lparr>objs := (objs st)(this := \<lparr>m_id = m_id (objs st other), m_name = m_name (objs st other),
                                     m_resource = m_resource (objs st other)\<rparr>,
                              other := (objs st other)\<lparr>m_name := leftover, m_resource := None\<rparr>),
           live := insert this (live st)\<rparr>)"
proof -
  from assms have "this \<noteq> other" by auto
  with assms show ?thesis
    apply (simp add: ResourceOwner_move_ctor_def Let_def)
    apply (rule state.equality; simp add: fun_eq_iff)
    done
qed

subsection \<open>Move assignment\<close>

lemma move_assign_null:
  assumes "this \<in> live st" "other \<in> live st" "this \<noteq> other"
    and "m_resource (objs st this) = None"
  shows "ResourceOwner_move_assign this other leftover st =
     Returned this
       (st\<lparr>objs := (objs st)(this := (objs st this)\<lparr>m_id := m_id (objs st other),
                                    m_name := m_name (objs st other),
                                    m_resource := m_resource (objs st other)\<rparr>,
                              other := (objs st other)\<lparr>m_name := leftover, m_resource := None\<rparr>)\<rparr>)"
  using assms
  apply (simp add: ResourceOwner_move_assign_def Let_def)
    apply (rule state.equality; simp add: fun_eq_iff)
    done

lemma move_assign_release:
  assumes "this \<in> live st" "other \<in> live st" "this \<noteq> other"
    and "m_resource (objs st this) = Some p" "heap st p = Some r"
  shows "ResourceOwner_move_assign this other leftover st =
     Returned this
       (st\<lparr>objs := (objs st)(this := (objs st this)\<lparr>m_id := m_id (objs st other),
                                    m_name := m_name (objs st other),
                                    m_resource := m_resource (objs st other)\<rparr>,
                              other := (objs st other)\<lparr>m_name := leftover, m_resource := None\<rparr>),
           heap := (heap st)(p := None), free_store := Suc (free_store st),
           released := released st @ [p]\<rparr>)"
  using assms
  apply (simp add: ResourceOwner_move_assign_def Let_def delete_Resource_Some)
    apply (rule state.equality; simp add: fun_eq_iff)
    done

lemma self_move_assign_null:
  assumes "this \<in> live st" "m_resource (objs st this) = None"
  shows "ResourceOwner_move_assign this this leftover st =
     Returned this (st\<lparr>objs := (objs st)(this := (objs st this)\<lparr>m_name := leftover\<rparr>)\<rparr>)"
  using assms
  apply (simp add: ResourceOwner_move_assign_def Let_def)
    apply (rule state.equality; simp add: fun_eq_iff)
    done

lemma self_move_assign_release:
  assumes "this \<in> live st" "m_resource (objs st this) = Some p" "heap st p = Some r"
  shows "ResourceOwner_move_assign this this leftover st =
     Returned this
       (st\<lparr>objs := (objs st)(this := (objs st this)\<lparr>m_name := leftover, m_resource := None\<rparr>),
           heap := (heap st)(p := None), free_store := Suc (free_store st),
           released := released st @ [p]\<rparr>)"
  using assms
  apply (simp add: ResourceOwner_move_assign_def Let_def delete_Resource_Some)
    apply (rule state.equality; simp add: fun_eq_iff)
    done

subsection \<open>Swap and destruction\<close>

lemma ResourceOwner_swap_closed:
  assumes "a \<in> live st" "b \<in> live st"
  shows "ResourceOwner_swap a b st = Returned () (st\<lparr>objs := (objs st)(a := objs st b, b := objs st a)\<rparr>)"
  using assms
  apply (simp add: ResourceOwner_swap_def Let_def)
  apply (auto intro!: state.equality simp add: fun_eq_iff)
  done

lemma dtor_null:
  assumes "this \<in> live st" "m_resource (objs st this) = None"
  shows "ResourceOwner_dtor this st = Returned () (st\<lparr>live := live st - {this}\<rparr>)"
  using assms by (simp add: ResourceOwner_dtor_def end_lifetime_def)

lemma dtor_release:
  assumes "this \<in> live st" "m_resource (objs st this) = Some p" "heap st p = Some r"
  shows "ResourceOwner_dtor this st =
     Returned () (st\<lparr>live := live st - {this}, heap := (heap st)(p := None),
                     free_store := Suc (free_store st), released := released st @ [p]\<rparr>)"
  using assms by (simp add: ResourceOwner_dtor_def end_lifetime_def delete_Resource_Some)


section \<open>Every operation keeps the ownership discipline\<close>

lemma handle_alt: "handle st x = (if x \<in> live st then m_resource (objs st x) else None)"
  by (simp add: handle_def ResourceOwner_resource_def)

lemma ok_heap:
  assumes "ownership_ok st" "x \<in> live st" "m_resource (objs st x) = Some a"
  shows "\<exists>r. heap st a = Some r"
proof -
  have "handle st x = Some a" using assms by (simp add: handle_alt)
  then have "heap st a \<noteq> None" using assms(1) unfolding ownership_ok_def owned_once_def by blast
  then show ?thesis by auto
qed

lemma ok_fresh:
  assumes "ownership_ok st"
  shows "heap st (next_addr st) = None"
  using assms unfolding ownership_ok_def owned_once_def by (metis less_irrefl option.exhaust)

text \<open>The changes of ownership, on states.\<close>

lemma ok_same:
  assumes "ownership_ok st" "handle s = handle st" "heap s = heap st" "next_addr s = next_addr st"
    "released s = released st"
  shows "ownership_ok s"
  using assms by (simp add: ownership_ok_def)

lemma ok_release:
  assumes "ownership_ok st" "handle st x = Some a" "handle s = (handle st)(x := None)"
    "heap s = (heap st)(a := None)" "next_addr s = next_addr st" "released s = released st @ [a]"
  shows "ownership_ok s"
  using owned_once_release [of "handle st" "heap st" "next_addr st" "released st" x a] assms
  by (simp add: ownership_ok_def)

lemma ok_acquire:
  assumes "ownership_ok st" "handle st x = None" "handle s = (handle st)(x \<mapsto> next_addr st)"
    "heap s = (heap st)(next_addr st \<mapsto> r)" "next_addr s = Suc (next_addr st)"
    "released s = released st"
  shows "ownership_ok s"
  using owned_once_acquire [of "handle st" "heap st" "next_addr st" "released st" x r] assms
  by (simp add: ownership_ok_def)

lemma ok_transfer:
  assumes "ownership_ok st" "handle st x = None" "handle s = (handle st)(x := handle st y, y := None)"
    "heap s = heap st" "next_addr s = next_addr st" "released s = released st"
  shows "ownership_ok s"
  using owned_once_transfer [of "handle st" "heap st" "next_addr st" "released st" x y] assms
  by (simp add: ownership_ok_def)

lemma ok_swap:
  assumes "ownership_ok st" "handle s = (handle st)(x := handle st y, y := handle st x)"
    "heap s = heap st" "next_addr s = next_addr st" "released s = released st"
  shows "ownership_ok s"
  using owned_once_swap [of "handle st" "heap st" "next_addr st" "released st" x y] assms
  by (simp add: ownership_ok_def)

lemma ok_store:
  assumes "ownership_ok st" "heap st a \<noteq> None" "handle s = handle st" "heap s = (heap st)(a \<mapsto> r)"
    "next_addr s = next_addr st" "released s = released st"
  shows "ownership_ok s"
  using owned_once_store [of "handle st" "heap st" "next_addr st" "released st" a r] assms
  by (simp add: ownership_ok_def)

lemma keeps_ReturnedI:
  "ownership_ok s \<Longrightarrow> next_addr st \<le> next_addr s \<Longrightarrow> keeps_ownership st (Returned v s)"
  by (simp add: keeps_ownership_def)

lemma keeps_ThrownI:
  "ownership_ok s \<Longrightarrow> next_addr st \<le> next_addr s \<Longrightarrow> keeps_ownership st (Thrown s)"
  by (simp add: keeps_ownership_def)

lemma copy_assign_keeps:
  assumes ok: "ownership_ok st"
  shows "keeps_ownership st (ResourceOwner_copy_assign this other nc st)"
proof (cases "this \<in> live st \<and> other \<in> live st")
  case False
  then show ?thesis by (auto simp add: ResourceOwner_copy_assign_def keeps_ownership_def)
next
  case True
  then have l: "this \<in> live st" "other \<in> live st" by auto
  show ?thesis
  proof (cases "this = other")
    case True
    with l ok show ?thesis by (simp add: ResourceOwner_copy_assign_def keeps_ownership_def)
  next
    case ne: False
    show ?thesis
    proof (cases nc)
      case NameThrows
      show ?thesis
        unfolding NameThrows copy_assign_name_throws [OF l ne]
        by (rule keeps_ThrownI, rule ok_same [OF ok])
          (use l in \<open>auto simp add: handle_alt fun_eq_iff\<close>)
    next
      case (NameCopied f)
      show ?thesis
      proof (cases "m_resource (objs st this)")
        case tn: None
        show ?thesis
        proof (cases "m_resource (objs st other)")
          case None
          show ?thesis
            unfolding NameCopied copy_assign_neither [OF l ne tn None]
            by (rule keeps_ReturnedI, rule ok_same [OF ok])
              (use l tn in \<open>auto simp add: handle_alt fun_eq_iff\<close>)
        next
          case (Some q)
          from ok_heap [OF ok l(2) Some] obtain r' where r': "heap st q = Some r'" ..
          have hn: "handle st this = None" using tn by (simp add: handle_alt)
          show ?thesis
          proof (cases "f = 0")
            case True
            show ?thesis
              unfolding NameCopied True copy_assign_bad_alloc [OF l ne tn Some]
              by (rule keeps_ThrownI, rule ok_same [OF ok])
                (use l tn in \<open>auto simp add: handle_alt fun_eq_iff\<close>)
          next
            case False
            show ?thesis
              unfolding NameCopied copy_assign_allocate [OF l ne tn Some r' False]
              by (rule keeps_ReturnedI, rule ok_acquire [OF ok hn])
                (use l tn in \<open>auto simp add: handle_alt fun_eq_iff\<close>)
          qed
        qed
      next
        case ts: (Some p)
        from ok_heap [OF ok l(1) ts] obtain r where r: "heap st p = Some r" ..
        have hp: "handle st this = Some p" using ts l by (simp add: handle_alt)
        show ?thesis
        proof (cases "m_resource (objs st other)")
          case None
          show ?thesis
            unfolding NameCopied copy_assign_release [OF l ne ts None r]
            by (rule keeps_ReturnedI, rule ok_release [OF ok hp])
              (use l ts in \<open>auto simp add: handle_alt fun_eq_iff\<close>)
        next
          case (Some q)
          from ok_heap [OF ok l(2) Some] obtain r' where r': "heap st q = Some r'" ..
          have "heap st p \<noteq> None" using r by simp
          then show ?thesis
            unfolding NameCopied copy_assign_both [OF l ne ts Some r r']
            by - (rule keeps_ReturnedI, rule ok_store [OF ok, of p],
                use l ts in \<open>auto simp add: handle_alt fun_eq_iff\<close>)
        qed
      qed
    qed
  qed
qed

lemma copy_ctor_keeps:
  assumes ok: "ownership_ok st"
  shows "keeps_ownership st (ResourceOwner_copy_ctor this other nc st)"
proof (cases "this \<notin> live st \<and> other \<in> live st")
  case False
  then show ?thesis by (auto simp add: ResourceOwner_copy_ctor_def keeps_ownership_def)
next
  case True
  then have l: "this \<notin> live st" "other \<in> live st" by auto
  have hn: "handle st this = None" using l by (simp add: handle_alt)
  show ?thesis
  proof (cases nc)
    case NameThrows
    show ?thesis
      unfolding NameThrows copy_ctor_name_throws [OF l]
      by (rule keeps_ThrownI, rule ok_same [OF ok])
        (use l in \<open>auto simp add: handle_alt fun_eq_iff\<close>)
  next
    case (NameCopied f)
    show ?thesis
    proof (cases "m_resource (objs st other)")
      case None
      show ?thesis
        unfolding NameCopied copy_ctor_null [OF l None]
        by (rule keeps_ReturnedI, rule ok_same [OF ok])
          (use l in \<open>auto simp add: handle_alt fun_eq_iff\<close>)
    next
      case (Some q)
      from ok_heap [OF ok l(2) Some] obtain r where r: "heap st q = Some r" ..
      show ?thesis
      proof (cases "f = 0")
        case True
        show ?thesis
          unfolding NameCopied True copy_ctor_bad_alloc [OF l Some]
          by (rule keeps_ThrownI, rule ok_same [OF ok])
            (use l in \<open>auto simp add: handle_alt fun_eq_iff\<close>)
      next
        case False
        show ?thesis
          unfolding NameCopied copy_ctor_allocate [OF l Some r False]
          by (rule keeps_ReturnedI, rule ok_acquire [OF ok hn])
            (use l in \<open>auto simp add: handle_alt fun_eq_iff\<close>)
      qed
    qed
  qed
qed

lemma move_ctor_keeps:
  assumes ok: "ownership_ok st"
  shows "keeps_ownership st (ResourceOwner_move_ctor this other leftover st)"
proof (cases "this \<notin> live st \<and> other \<in> live st")
  case False
  then show ?thesis by (auto simp add: ResourceOwner_move_ctor_def keeps_ownership_def)
next
  case True
  then have l: "this \<notin> live st" "other \<in> live st" by auto
  have hn: "handle st this = None" using l by (simp add: handle_alt)
  show ?thesis
    unfolding move_ctor_closed [OF l]
    by (rule keeps_ReturnedI, rule ok_transfer [OF ok hn, of _ other])
      (use l in \<open>auto simp add: handle_alt fun_eq_iff\<close>)
qed

lemma swap_keeps:
  assumes ok: "ownership_ok st"
  shows "keeps_ownership st (ResourceOwner_swap a b st)"
proof (cases "a \<in> live st \<and> b \<in> live st")
  case False
  then show ?thesis by (auto simp add: ResourceOwner_swap_def keeps_ownership_def)
next
  case True
  then have l: "a \<in> live st" "b \<in> live st" by auto
  show ?thesis
    unfolding ResourceOwner_swap_closed [OF l]
    by (rule keeps_ReturnedI, rule ok_swap [OF ok, of _ a b])
      (use l in \<open>auto simp add: handle_alt fun_eq_iff\<close>)
qed

lemma dtor_keeps:
  assumes ok: "ownership_ok st"
  shows "keeps_ownership st (ResourceOwner_dtor this st)"
proof (cases "this \<in> live st")
  case False
  then show ?thesis by (auto simp add: ResourceOwner_dtor_def keeps_ownership_def)
next
  case l: True
  show ?thesis
  proof (cases "m_resource (objs st this)")
    case None
    show ?thesis
      unfolding dtor_null [OF l None]
      by (rule keeps_ReturnedI, rule ok_same [OF ok])
        (use l None in \<open>auto simp add: handle_alt fun_eq_iff\<close>)
  next
    case (Some p)
    from ok_heap [OF ok l Some] obtain r where r: "heap st p = Some r" ..
    have hp: "handle st this = Some p" using Some l by (simp add: handle_alt)
    show ?thesis
      unfolding dtor_release [OF l Some r]
      by (rule keeps_ReturnedI, rule ok_release [OF ok hp])
        (use l Some in \<open>auto simp add: handle_alt fun_eq_iff\<close>)
  qed
qed

lemma move_assign_keeps:
  assumes ok: "ownership_ok st"
  shows "keeps_ownership st (ResourceOwner_move_assign this other leftover st)"
proof (cases "this \<in> live st \<and> other \<in> live st")
  case False
  then show ?thesis by (auto simp add: ResourceOwner_move_assign_def keeps_ownership_def)
next
  case True
  then have l: "this \<in> live st" "other \<in> live st" by auto
  show ?thesis
  proof (cases "m_resource (objs st this)")
    case tn: None
    have hn: "handle st this = None" using tn by (simp add: handle_alt)
    show ?thesis
    proof (cases "this = other")
      case True
      show ?thesis
        unfolding True [symmetric] self_move_assign_null [OF l(1) tn]
        by (rule keeps_ReturnedI, rule ok_same [OF ok])
          (use l tn in \<open>auto simp add: handle_alt fun_eq_iff\<close>)
    next
      case ne: False
      show ?thesis
        unfolding move_assign_null [OF l ne tn]
        by (rule keeps_ReturnedI, rule ok_transfer [OF ok hn, of _ other])
          (use l tn ne in \<open>auto simp add: handle_alt fun_eq_iff\<close>)
    qed
  next
    case ts: (Some p)
    from ok_heap [OF ok l(1) ts] obtain r where r: "heap st p = Some r" ..
    have hp: "handle st this = Some p" using ts l by (simp add: handle_alt)
    show ?thesis
    proof (cases "this = other")
      case True
      show ?thesis
        unfolding True [symmetric] self_move_assign_release [OF l(1) ts r]
        by (rule keeps_ReturnedI, rule ok_release [OF ok hp])
          (use l ts in \<open>auto simp add: handle_alt fun_eq_iff\<close>)
    next
      case ne: False
      let ?s1 = "st\<lparr>objs := (objs st)(this := (objs st this)\<lparr>m_resource := None\<rparr>),
                     heap := (heap st)(p := None), free_store := Suc (free_store st),
                     released := released st @ [p]\<rparr>"
      have ok1: "ownership_ok ?s1"
        by (rule ok_release [OF ok hp]) (use l ts in \<open>auto simp add: handle_alt fun_eq_iff\<close>)
      have hn1: "handle ?s1 this = None" by (simp add: handle_alt)
      show ?thesis
        unfolding move_assign_release [OF l ne ts r]
        by (rule keeps_ReturnedI, rule ok_transfer [OF ok1 hn1, of _ other])
          (use l ts ne in \<open>auto simp add: handle_alt fun_eq_iff\<close>)
    qed
  qed
qed

lemma construct_keeps:
  assumes ok: "ownership_ok st"
  shows "keeps_ownership st (construct this ident name v (NameCopied f) st)"
proof (cases "this \<in> live st")
  case True
  with ok show ?thesis
    by (cases v) (auto simp add: construct_def ResourceOwner_ctor_def new_Resource_def keeps_ownership_def)
next
  case l: False
  have hn: "handle st this = None" using l by (simp add: handle_alt)
  show ?thesis
  proof (cases v)
    case None
    have "construct this ident name v (NameCopied f) st =
        Returned () (st\<lparr>objs := (objs st)(this := (objs st this)\<lparr>m_id := ident, m_name := name,
                                                               m_resource := None\<rparr>),
                        live := insert this (live st), free_store := f\<rparr>)"
      using l None
      apply (simp add: construct_def ResourceOwner_ctor_def Let_def)
      apply (rule state.equality; simp add: fun_eq_iff)
      done
    then show ?thesis
      by (simp only:) (rule keeps_ReturnedI, rule ok_same [OF ok],
          use l in \<open>auto simp add: handle_alt fun_eq_iff\<close>)
  next
    case (Some i)
    show ?thesis
    proof (cases "free_store st = 0")
      case True
      then show ?thesis using ok Some
        by (simp add: construct_def new_Resource_fails keeps_ownership_def)
    next
      case False
      have "construct this ident name v (NameCopied f) st =
          Returned () (st\<lparr>objs := (objs st)(this := (objs st this)\<lparr>m_id := ident, m_name := name,
                                                   m_resource := Some (next_addr st)\<rparr>),
                          live := insert this (live st),
                          heap := (heap st)(next_addr st \<mapsto> Resource_ctor i),
                          next_addr := Suc (next_addr st), free_store := f\<rparr>)"
        using l Some False
        apply (simp add: construct_def ResourceOwner_ctor_def Let_def new_Resource_ok)
        apply (rule state.equality; simp add: fun_eq_iff)
        done
      then show ?thesis
        by (simp only:) (rule keeps_ReturnedI, rule ok_acquire [OF ok hn],
            use l in \<open>auto simp add: handle_alt fun_eq_iff\<close>)
    qed
  qed
qed

lemma keeps_and_then_unit:
  "keeps_ownership st r \<Longrightarrow> keeps_ownership st (and_then r (\<lambda>_ s. Returned () s))"
  by (cases r) (simp_all add: keeps_ownership_def)

lemma step_keeps:
  assumes "ownership_ok st"
  shows "keeps_ownership st (step x st)"
proof (cases x)
  case (Construct this ident name v)
  then show ?thesis using construct_keeps [OF assms] by simp
next
  case (CopyConstruct this other)
  then show ?thesis using copy_ctor_keeps [OF assms] by simp
next
  case (MoveConstruct this other leftover)
  then show ?thesis using move_ctor_keeps [OF assms] by simp
next
  case (CopyAssign this other)
  then show ?thesis using keeps_and_then_unit [OF copy_assign_keeps [OF assms]] by simp
next
  case (MoveAssign this other leftover)
  then show ?thesis using keeps_and_then_unit [OF move_assign_keeps [OF assms]] by simp
next
  case (Swap a b)
  then show ?thesis using swap_keeps [OF assms] by (simp add: swap_def)
qed

lemma run_keeps:
  "ownership_ok st \<Longrightarrow>
   (case run ops st of Inl u \<Rightarrow> u = NotAnObject
    | Inr s \<Rightarrow> ownership_ok s \<and> next_addr st \<le> next_addr s)"
proof (induction ops arbitrary: st)
  case Nil
  then show ?case by simp
next
  case (Cons x xs)
  from step_keeps [OF Cons.prems, of x] show ?case
  proof (cases "step x st")
    case (Returned v s)
    with step_keeps [OF Cons.prems, of x] have s: "ownership_ok s" "next_addr st \<le> next_addr s"
      by (simp_all add: keeps_ownership_def)
    from Cons.IH [OF s(1)] s(2) Returned show ?thesis
      by (auto split: sum.splits)
  next
    case (Thrown s)
    with step_keeps [OF Cons.prems, of x] have s: "ownership_ok s" "next_addr st \<le> next_addr s"
      by (simp_all add: keeps_ownership_def)
    from Cons.IH [OF s(1)] s(2) Thrown show ?thesis
      by (auto split: sum.splits)
  next
    case (Undefined u)
    with step_keeps [OF Cons.prems, of x] show ?thesis
      by (simp add: keeps_ownership_def)
  qed
qed

lemma dtor_returns:
  assumes ok: "ownership_ok st" and l: "x \<in> live st"
  shows "\<exists>s. ResourceOwner_dtor x st = Returned () s \<and> ownership_ok s \<and>
             live s = live st - {x} \<and> next_addr s = next_addr st"
proof (cases "m_resource (objs st x)")
  case None
  from dtor_keeps [OF ok, of x] show ?thesis
    unfolding dtor_null [OF l None] by (simp add: keeps_ownership_def)
next
  case (Some p)
  from ok_heap [OF ok l Some] obtain r where r: "heap st p = Some r" ..
  from dtor_keeps [OF ok, of x] show ?thesis
    unfolding dtor_release [OF l Some r] by (simp add: keeps_ownership_def)
qed

lemma destroy_all_returns:
  "ownership_ok st \<Longrightarrow> distinct xs \<Longrightarrow> set xs \<subseteq> live st \<Longrightarrow>
   \<exists>s. destroy_all xs st = Inr s \<and> ownership_ok s \<and> live s = live st - set xs \<and>
       next_addr s = next_addr st"
proof (induction xs arbitrary: st)
  case Nil
  then show ?case by simp
next
  case (Cons x xs)
  then have "x \<in> live st" by simp
  from dtor_returns [OF Cons.prems(1) this] obtain s1 where
    s1: "ResourceOwner_dtor x st = Returned () s1" "ownership_ok s1" "live s1 = live st - {x}"
      "next_addr s1 = next_addr st" by blast
  have "distinct xs" "set xs \<subseteq> live s1" using Cons.prems s1(3) by auto
  from Cons.IH [OF s1(2) this] obtain s where
    "destroy_all xs s1 = Inr s" "ownership_ok s" "live s = live s1 - set xs" "next_addr s = next_addr s1"
    by blast
  with s1 show ?case by auto
qed

lemma count_list_distinct: "distinct xs \<Longrightarrow> a \<in> set xs \<Longrightarrow> count_list xs a = 1"
  by (induction xs) auto

lemma ok_all_dead:
  assumes "ownership_ok st" "live st = {}"
  shows "heap st = Map.empty" and "\<forall>a<next_addr st. count_list (released st) a = 1"
proof -
  have h: "handle st x = None" for x using assms(2) by (simp add: handle_alt)
  show e: "heap st = Map.empty"
  proof (rule ext)
    fix a show "heap st a = None"
      using assms(1) h unfolding ownership_ok_def owned_once_def by (metis option.distinct(1))
  qed
  have "distinct (released st)" "\<And>a. a \<in> set (released st) \<longleftrightarrow> a < next_addr st"
    using assms(1) e unfolding ownership_ok_def owned_once_def by auto
  then show "\<forall>a<next_addr st. count_list (released st) a = 1"
    by (simp add: count_list_distinct)
qed

lemma ok_exactly_one:
  "ownership_ok st \<Longrightarrow> heap st a \<noteq> None \<Longrightarrow> \<exists>!x. handle st x = Some a"
  unfolding ownership_ok_def by (rule owned_once_unique)

lemma ok_handle_live:
  "ownership_ok st \<Longrightarrow> handle st x = Some a \<Longrightarrow> heap st a \<noteq> None"
  unfolding ownership_ok_def owned_once_def by blast


text \<open>
  A creation whose copy of the name throws: the constructor never completes, and the
  Resource that the caller allocated for it stays live with no owner to release it.
\<close>

lemma construct_name_throws_leaks:
  assumes ok: "ownership_ok st" and l: "this \<notin> live st" and f: "free_store st \<noteq> 0"
  shows "\<exists>s. construct this ident name (Some i) NameThrows st = Thrown s \<and>
     heap s (next_addr st) = Some (Resource_ctor i) \<and> live s = live st \<and>
     (\<forall>x. handle s x \<noteq> Some (next_addr st)) \<and> \<not> ownership_ok s"
proof -
  let ?s = "st\<lparr>objs := (objs st)(this := (objs st this)\<lparr>m_id := ident\<rparr>),
              heap := (heap st)(next_addr st \<mapsto> Resource_ctor i),
              next_addr := Suc (next_addr st), free_store := free_store st - 1\<rparr>"
  have eq: "construct this ident name (Some i) NameThrows st = Thrown ?s"
    using l f
    apply (simp add: construct_def ResourceOwner_ctor_def Let_def new_Resource_ok)
    apply (rule state.equality; simp add: fun_eq_iff)
    done
  have h: "handle ?s x = handle st x" for x
    using l by (auto simp add: handle_alt)
  have fresh: "heap st (next_addr st) = None" using ok by (rule ok_fresh)
  have none: "handle ?s x \<noteq> Some (next_addr st)" for x
    using ok_handle_live [OF ok, of x "next_addr st"] fresh unfolding h by auto
  have "\<not> ownership_ok ?s"
  proof
    assume "ownership_ok ?s"
    moreover have "heap ?s (next_addr st) \<noteq> None" by simp
    ultimately have "\<exists>!x. handle ?s x = Some (next_addr st)" by (rule ok_exactly_one)
    with none show False by blast
  qed
  with eq none show ?thesis by simp
qed

subsection \<open>Consequences for single operations\<close>

lemma resource_get_Returned:
  "resource_get A st = Returned v s \<longleftrightarrow>
     s = st \<and> A \<in> live st \<and> (\<exists>p r. m_resource (objs st A) = Some p \<and> heap st p = Some r \<and> i_val r = v)"
  by (auto simp add: resource_get_def ResourceOwner_resource_def deref_def Resource_get_def
      split: option.splits)

lemma ok_distinct_handles:
  assumes "ownership_ok st" "x \<in> live st" "y \<in> live st" "x \<noteq> y"
    "m_resource (objs st x) = Some p" "m_resource (objs st y) = Some q"
  shows "p \<noteq> q"
proof
  assume "p = q"
  with assms have "handle st x = Some p" "handle st y = Some p" by (simp_all add: handle_alt)
  with assms(1) have "x = y" unfolding ownership_ok_def owned_once_def by blast
  with assms(4) show False by simp
qed

lemma ok_released_once:
  assumes "ownership_ok st" "a \<in> set (released st)"
  shows "count_list (released st) a = 1"
proof -
  have "distinct (released st)" using assms(1) unfolding ownership_ok_def owned_once_def by blast
  then show ?thesis using assms(2) by (rule count_list_distinct)
qed

lemma copy_assign_defined:
  assumes ok: "ownership_ok st" and l: "this \<in> live st" "other \<in> live st"
  shows "ResourceOwner_copy_assign this other nc st \<noteq> Undefined u"
proof (cases "this = other")
  case True
  with l show ?thesis by (simp add: ResourceOwner_copy_assign_def)
next
  case ne: False
  show ?thesis
  proof (cases nc)
    case NameThrows
    show ?thesis by (simp add: NameThrows copy_assign_name_throws [OF l ne])
  next
    case (NameCopied f)
    show ?thesis
    proof (cases "m_resource (objs st this)")
      case tn: None
      show ?thesis
      proof (cases "m_resource (objs st other)")
        case None
        show ?thesis by (simp add: NameCopied copy_assign_neither [OF l ne tn None])
      next
        case (Some q)
        from ok_heap [OF ok l(2) Some] obtain r' where r': "heap st q = Some r'" ..
        show ?thesis
        proof (cases "f = 0")
          case True
          show ?thesis by (simp add: NameCopied True copy_assign_bad_alloc [OF l ne tn Some])
        next
          case False
          show ?thesis by (simp add: NameCopied copy_assign_allocate [OF l ne tn Some r' False])
        qed
      qed
    next
      case ts: (Some p)
      from ok_heap [OF ok l(1) ts] obtain r where r: "heap st p = Some r" ..
      show ?thesis
      proof (cases "m_resource (objs st other)")
        case None
        show ?thesis by (simp add: NameCopied copy_assign_release [OF l ne ts None r])
      next
        case (Some q)
        from ok_heap [OF ok l(2) Some] obtain r' where r': "heap st q = Some r'" ..
        show ?thesis by (simp add: NameCopied copy_assign_both [OF l ne ts Some r r'])
      qed
    qed
  qed
qed

lemma copy_ctor_defined:
  assumes ok: "ownership_ok st" and l: "this \<notin> live st" "other \<in> live st"
  shows "ResourceOwner_copy_ctor this other nc st \<noteq> Undefined u"
proof (cases nc)
  case NameThrows
  show ?thesis by (simp add: NameThrows copy_ctor_name_throws [OF l])
next
  case (NameCopied f)
  show ?thesis
  proof (cases "m_resource (objs st other)")
    case None
    show ?thesis by (simp add: NameCopied copy_ctor_null [OF l None])
  next
    case (Some q)
    from ok_heap [OF ok l(2) Some] obtain r where r: "heap st q = Some r" ..
    show ?thesis
    proof (cases "f = 0")
      case True
      show ?thesis by (simp add: NameCopied True copy_ctor_bad_alloc [OF l Some])
    next
      case False
      show ?thesis by (simp add: NameCopied copy_ctor_allocate [OF l Some r False])
    qed
  qed
qed

lemma move_assign_defined:
  assumes ok: "ownership_ok st" and l: "this \<in> live st" "other \<in> live st"
  shows "ResourceOwner_move_assign this other leftover st \<noteq> Undefined u"
proof (cases "m_resource (objs st this)")
  case tn: None
  show ?thesis
  proof (cases "this = other")
    case True
    show ?thesis unfolding True [symmetric] by (simp add: self_move_assign_null [OF l(1) tn])
  next
    case False
    show ?thesis by (simp add: move_assign_null [OF l False tn])
  qed
next
  case ts: (Some p)
  from ok_heap [OF ok l(1) ts] obtain r where r: "heap st p = Some r" ..
  show ?thesis
  proof (cases "this = other")
    case True
    show ?thesis unfolding True [symmetric] by (simp add: self_move_assign_release [OF l(1) ts r])
  next
    case False
    show ?thesis by (simp add: move_assign_release [OF l False ts r])
  qed
qed


section \<open>The example states\<close>

text \<open>
  The example states are reached from the start state by the constructor alone, so the
  ownership discipline holds in them.
\<close>

lemma ok_start: "ownership_ok (start_state n)"
  by (simp add: ownership_ok_def owned_once_def handle_alt start_state_def)

lemma demo_state_reachable:
  "run [Construct 1 1 ''id1'' (Some 101) (Suc n), Construct 2 2 ''id2'' None (Suc n),
        Construct 3 3 ''id3'' (Some 303) n, Construct 4 4 ''id4'' None n] (start_state (Suc (Suc n)))
   = Inr (demo_state n)"
  apply (simp add: construct_def new_Resource_def ResourceOwner_ctor_def begin_lifetime_def
      set_m_id_def set_m_name_def set_m_resource_def Let_def start_state_def demo_state_def)
  apply (auto simp add: fun_eq_iff)
  done

lemma ok_demo: "ownership_ok (demo_state n)"
proof -
  have "ownership_ok (start_state (Suc (Suc n)))" by (rule ok_start)
  from run_keeps [OF this, of "[Construct 1 1 ''id1'' (Some 101) (Suc n),
        Construct 2 2 ''id2'' None (Suc n), Construct 3 3 ''id3'' (Some 303) n,
        Construct 4 4 ''id4'' None n]"]
  show ?thesis unfolding demo_state_reachable by simp
qed

lemma main_run: "run main_ops (start_state 3) = Inr main_end_state"
  apply (simp add: main_ops_def construct_def new_Resource_def ResourceOwner_ctor_def
      ResourceOwner_copy_ctor_def ResourceOwner_copy_assign_def ResourceOwner_move_ctor_def
      ResourceOwner_move_assign_def Let_def deref_def copy_of_def delete_Resource_def swap_def
      Resource_copy_ctor_def Resource_copy_assign_def Resource_ctor_def
      set_m_id_def set_m_name_def set_m_resource_def begin_lifetime_def
      start_state_def main_end_state_def)
  apply (auto simp add: fun_eq_iff)
  done

lemma main_destroy:
  "destroy_all [3, 2, 1] main_end_state =
     Inr (main_end_state\<lparr>live := {}, heap := Map.empty, free_store := 3, released := [0, 1]\<rparr>)"
  apply (simp add: ResourceOwner_dtor_def delete_Resource_def main_end_state_def end_lifetime_def)
  apply (auto simp add: fun_eq_iff)
  done

lemma demo_live [simp]: "live (demo_state n) = {1, 2, 3, 4}"
  by (simp add: demo_state_def)

lemma demo_objs [simp]:
  "objs (demo_state n) 1 = \<lparr>m_id = 1, m_name = ''id1'', m_resource = Some 0\<rparr>"
  "objs (demo_state n) (Suc 0) = \<lparr>m_id = 1, m_name = ''id1'', m_resource = Some 0\<rparr>"
  "objs (demo_state n) 2 = \<lparr>m_id = 2, m_name = ''id2'', m_resource = None\<rparr>"
  "objs (demo_state n) 3 = \<lparr>m_id = 3, m_name = ''id3'', m_resource = Some 1\<rparr>"
  "objs (demo_state n) 4 = \<lparr>m_id = 4, m_name = ''id4'', m_resource = None\<rparr>"
  by (simp_all add: demo_state_def)

lemma demo_heap [simp]:
  "heap (demo_state n) = [0 \<mapsto> \<lparr>i_val = 101\<rparr>, 1 \<mapsto> \<lparr>i_val = 303\<rparr>]"
  "next_addr (demo_state n) = 2" "free_store (demo_state n) = n" "released (demo_state n) = []"
  by (simp_all add: demo_state_def Resource_ctor_def)

lemma demo_fields [simp]:
  "ResourceOwner_id 1 (demo_state n) = 1" "ResourceOwner_id 2 (demo_state n) = 2"
  "ResourceOwner_id 3 (demo_state n) = 3" "ResourceOwner_id 4 (demo_state n) = 4"
  "ResourceOwner_name 1 (demo_state n) = ''id1''" "ResourceOwner_name 2 (demo_state n) = ''id2''"
  "ResourceOwner_name 3 (demo_state n) = ''id3''" "ResourceOwner_name 4 (demo_state n) = ''id4''"
  "ResourceOwner_resource 1 (demo_state n) = Some 0" "ResourceOwner_resource 2 (demo_state n) = None"
  "ResourceOwner_resource 3 (demo_state n) = Some 1" "ResourceOwner_resource 4 (demo_state n) = None"
  "ResourceOwner_id (Suc 0) (demo_state n) = 1" "ResourceOwner_name (Suc 0) (demo_state n) = ''id1''"
  "ResourceOwner_resource (Suc 0) (demo_state n) = Some 0"
  by (simp_all add: ResourceOwner_id_def ResourceOwner_name_def ResourceOwner_resource_def)

text \<open>
  The model sees what the discipline excludes: were \<open>o2\<close> given the pointer \<open>o1\<close> holds, as
  the constructor from a raw pointer allows, destroying both would delete the allocation
  twice.
\<close>

lemma shared_handle_double_delete:
  "destroy_all [1, 2] (set_m_resource 2 (Some 0) (demo_state n)) = Inl DoubleDelete"
  by (simp add: ResourceOwner_dtor_def delete_Resource_def end_lifetime_def)

text \<open>
  With the free store exhausted and a name of 32 characters, too long for a small-string
  buffer, the copy of the name is what throws. In \<open>o1 = o3\<close> with such a name in \<open>o3\<close>, both
  owning a resource, \<open>o1\<close> is left with the id 3, its name \<open>"id1"\<close> and its resource, of
  value 101; the copy construction of a fifth owner from \<open>o2\<close>, which owns no resource,
  leaves no new object.
\<close>

lemma long_name_copy_assign_throws:
  "ResourceOwner_copy_assign 1 3 NameThrows (set_m_name 3 (replicate 32 CHR ''x'') (demo_state 0)) =
     Thrown (set_m_id 1 3 (set_m_name 3 (replicate 32 CHR ''x'') (demo_state 0))) \<and>
   objs (set_m_id 1 3 (set_m_name 3 (replicate 32 CHR ''x'') (demo_state 0))) 1 =
     \<lparr>m_id = 3, m_name = ''id1'', m_resource = Some 0\<rparr> \<and>
   heap (set_m_id 1 3 (set_m_name 3 (replicate 32 CHR ''x'') (demo_state 0))) 0 =
     Some \<lparr>i_val = 101\<rparr>"
proof -
  have "ResourceOwner_copy_assign 1 3 NameThrows (set_m_name 3 (replicate 32 CHR ''x'') (demo_state 0)) =
     Thrown (set_m_id 1 3 (set_m_name 3 (replicate 32 CHR ''x'') (demo_state 0)))"
    by (simp add: ResourceOwner_copy_assign_def Let_def)
  then show ?thesis by simp
qed

lemma long_name_copy_ctor_throws:
  "ResourceOwner_copy_ctor 5 2 NameThrows (set_m_name 2 (replicate 32 CHR ''x'') (demo_state 0)) =
     Thrown (set_m_id 5 2 (set_m_name 2 (replicate 32 CHR ''x'') (demo_state 0))) \<and>
   live (set_m_id 5 2 (set_m_name 2 (replicate 32 CHR ''x'') (demo_state 0))) = {1, 2, 3, 4} \<and>
   heap (set_m_id 5 2 (set_m_name 2 (replicate 32 CHR ''x'') (demo_state 0))) =
     heap (demo_state 0)"
proof -
  have "ResourceOwner_copy_ctor 5 2 NameThrows (set_m_name 2 (replicate 32 CHR ''x'') (demo_state 0)) =
     Thrown (set_m_id 5 2 (set_m_name 2 (replicate 32 CHR ''x'') (demo_state 0)))"
    by (simp add: ResourceOwner_copy_ctor_def Let_def)
  then show ?thesis by simp
qed

section \<open>The claims\<close>

text \<open>
  Claim C1. From a state in which the ownership discipline holds, a program of creations,
  copy and move constructions, copy and move assignments and swaps, whatever happens to the
  copies of names in its copy operations, never deletes an allocation twice and never
  accesses one through a dangling or a null pointer: the only undefined behaviour left is
  the client's use of an object outside its lifetime. In every state such a program reaches,
  no handle dangles and every live allocation is referenced by exactly one live owner's
  handle. Destroying all the owners then alive, once each and in any order, succeeds and
  leaves no live allocation and no live owner, and every allocation ever made stands exactly
  once in the log of releases.
\<close>

theorem ownership_discipline:
  assumes "ownership_ok st"
  shows "run ops st \<noteq> Inl DoubleDelete \<and> run ops st \<noteq> Inl DanglingAccess \<and>
     run ops st \<noteq> Inl NullAccess \<and>
     (\<forall>st'. run ops st = Inr st' \<longrightarrow>
        (\<forall>x a. handle st' x = Some a \<longrightarrow> heap st' a \<noteq> None) \<and>
        (\<forall>a. heap st' a \<noteq> None \<longrightarrow> (\<exists>!x. handle st' x = Some a)) \<and>
        (\<forall>xs. distinct xs \<and> set xs = live st' \<longrightarrow>
           (\<exists>st''. destroy_all xs st' = Inr st'' \<and> live st'' = {} \<and> heap st'' = Map.empty \<and>
                   next_addr st \<le> next_addr st'' \<and>
                   (\<forall>a<next_addr st''. count_list (released st'') a = 1))))"
proof (intro conjI allI impI)
  show "run ops st \<noteq> Inl DoubleDelete" "run ops st \<noteq> Inl DanglingAccess" "run ops st \<noteq> Inl NullAccess"
    using run_keeps [OF assms, of ops] by (auto split: sum.splits)
next
  fix st' assume r: "run ops st = Inr st'"
  with run_keeps [OF assms, of ops] have ok': "ownership_ok st'" and n: "next_addr st \<le> next_addr st'"
    by simp_all
  { fix x a assume "handle st' x = Some a"
    with ok' show "heap st' a \<noteq> None" by (rule ok_handle_live) }
  { fix a assume "heap st' a \<noteq> None"
    with ok' show "\<exists>!x. handle st' x = Some a" by (rule ok_exactly_one) }
  { fix xs assume "distinct xs \<and> set xs = live st'"
    then have "distinct xs" "set xs \<subseteq> live st'" "live st' - set xs = {}" by auto
    with destroy_all_returns [OF ok', of xs] obtain s where
      s: "destroy_all xs st' = Inr s" "ownership_ok s" "live s = {}" "next_addr s = next_addr st'"
      by auto
    from ok_all_dead [OF s(2,3)] s n
    show "\<exists>st''. destroy_all xs st' = Inr st'' \<and> live st'' = {} \<and> heap st'' = Map.empty \<and>
                   next_addr st \<le> next_addr st'' \<and>
                   (\<forall>a<next_addr st''. count_list (released st'') a = 1)"
      by auto }
qed

theorem ownership_discipline_witness:
  "ownership_ok (start_state 3) \<and>
   run main_ops (start_state 3) = Inr main_end_state \<and>
   run main_ops (start_state 3) \<noteq> Inl DoubleDelete \<and>
   distinct [3, 2, 1 :: nat] \<and> set [3, 2, 1] = live main_end_state \<and>
   (\<exists>st''. destroy_all [3, 2, 1] main_end_state = Inr st'' \<and> live st'' = {} \<and>
      heap st'' = Map.empty \<and> next_addr st'' = 2 \<and>
      count_list (released st'') 0 = 1 \<and> count_list (released st'') 1 = 1)"
proof -
  have ok: "ownership_ok (start_state 3)" by (rule ok_start)
  have d: "distinct [3, 2, 1 :: nat] \<and> set [3, 2, 1] = live main_end_state"
    by (auto simp add: main_end_state_def)
  from ownership_discipline [OF ok, of main_ops] main_run d
  obtain st'' where s: "destroy_all [3, 2, 1] main_end_state = Inr st''" "live st'' = {}"
    "heap st'' = Map.empty" "\<forall>a<next_addr st''. count_list (released st'') a = 1"
    by blast
  have n: "next_addr st'' = 2" using s(1) unfolding main_destroy by (auto simp add: main_end_state_def)
  with s(4) have "count_list (released st'') 0 = 1" "count_list (released st'') 1 = 1"
    by simp_all
  with ok main_run d s n show ?thesis by simp
qed


text \<open>
  Claim C2. In a state where the ownership discipline holds, copy construction of \<open>B\<close> from
  an owner \<open>A\<close> whose resource has the value \<open>v\<close> returns, when the copy of the name is made
  and leaves a free store that is not exhausted, with \<open>B\<close> holding the id and the name of
  \<open>A\<close> and a resource of value \<open>v\<close> behind a handle different from the one of \<open>A\<close>; setting
  the value of the resource of \<open>B\<close> leaves the one of \<open>A\<close> at \<open>v\<close>, and setting the one of \<open>A\<close>
  leaves the one of \<open>B\<close> at \<open>v\<close>. When \<open>A\<close> owns no resource and the copy of the name is
  made, the handle of the copy is null and nothing is allocated. When the copy of the name
  throws, or the free store is exhausted where the Resource is allocated, the constructor
  throws: no copy comes to life, nothing is allocated or released and no object changes.
\<close>

theorem copy_ctor_deep_copy:
  assumes ok: "ownership_ok st" and A: "A \<in> live st" and B: "B \<notin> live st"
  shows "(\<forall>v f. resource_get A st = Returned v st \<and> f \<noteq> 0 \<longrightarrow>
           (\<exists>s. ResourceOwner_copy_ctor B A (NameCopied f) st = Returned () s \<and>
                ResourceOwner_id B s = ResourceOwner_id A st \<and>
                ResourceOwner_name B s = ResourceOwner_name A st \<and>
                ResourceOwner_resource B s \<noteq> None \<and>
                ResourceOwner_resource B s \<noteq> ResourceOwner_resource A s \<and>
                resource_get B s = Returned v s \<and> resource_get A s = Returned v s \<and>
                (\<forall>w. \<exists>s'. resource_set B w s = Returned () s' \<and>
                     resource_get B s' = Returned w s' \<and> resource_get A s' = Returned v s') \<and>
                (\<forall>w. \<exists>s'. resource_set A w s = Returned () s' \<and>
                     resource_get A s' = Returned w s' \<and> resource_get B s' = Returned v s'))) \<and>
         (\<forall>f. ResourceOwner_resource A st = None \<longrightarrow>
           (\<exists>s. ResourceOwner_copy_ctor B A (NameCopied f) st = Returned () s \<and>
                ResourceOwner_id B s = ResourceOwner_id A st \<and>
                ResourceOwner_name B s = ResourceOwner_name A st \<and>
                ResourceOwner_resource B s = None \<and> heap s = heap st \<and>
                next_addr s = next_addr st)) \<and>
         (\<exists>s. ResourceOwner_copy_ctor B A NameThrows st = Thrown s \<and>
              live s = live st \<and> heap s = heap st \<and> next_addr s = next_addr st \<and>
              released s = released st \<and> free_store s = free_store st \<and>
              (\<forall>x. x \<noteq> B \<longrightarrow> objs s x = objs st x)) \<and>
         (ResourceOwner_resource A st \<noteq> None \<longrightarrow>
           (\<exists>s. ResourceOwner_copy_ctor B A (NameCopied 0) st = Thrown s \<and>
                live s = live st \<and> heap s = heap st \<and> next_addr s = next_addr st \<and>
                released s = released st \<and> (\<forall>x. x \<noteq> B \<longrightarrow> objs s x = objs st x)))"
proof (intro conjI allI impI)
  fix v and f :: nat assume "resource_get A st = Returned v st \<and> f \<noteq> 0"
  then obtain p r where p: "m_resource (objs st A) = Some p" and r: "heap st p = Some r"
    and v: "i_val r = v" and f: "f \<noteq> 0"
    by (auto simp add: resource_get_Returned)
  from B A have ne: "B \<noteq> A" by auto
  have fresh: "heap st (next_addr st) = None" using ok by (rule ok_fresh)
  with r have pn: "p \<noteq> next_addr st" by auto
  let ?s = "st\<lparr>objs := (objs st)(B := (objs st B)\<lparr>m_id := m_id (objs st A),
                                    m_name := m_name (objs st A),
                                    m_resource := Some (next_addr st)\<rparr>),
           live := insert B (live st),
           heap := (heap st)(next_addr st \<mapsto> Resource_copy_ctor r),
           next_addr := Suc (next_addr st), free_store := f - 1\<rparr>"
  have eq: "ResourceOwner_copy_ctor B A (NameCopied f) st = Returned () ?s"
    by (rule copy_ctor_allocate [OF B A p r f])
  have gB: "resource_get B ?s = Returned v ?s"
    using v by (simp add: resource_get_Returned Resource_copy_ctor_def)
  have gA: "resource_get A ?s = Returned v ?s"
    using v A ne p r pn by (simp add: resource_get_Returned)
  have sB: "\<exists>s'. resource_set B w ?s = Returned () s' \<and>
        resource_get B s' = Returned w s' \<and> resource_get A s' = Returned v s'" for w
    using v A ne p r pn
    by (simp add: resource_set_def ResourceOwner_resource_def deref_def Resource_set_def
        resource_get_Returned)
  have sA: "\<exists>s'. resource_set A w ?s = Returned () s' \<and>
        resource_get A s' = Returned w s' \<and> resource_get B s' = Returned v s'" for w
    using v A ne p r pn
    by (simp add: resource_set_def ResourceOwner_resource_def deref_def Resource_set_def
        resource_get_Returned Resource_copy_ctor_def)
  have fields: "ResourceOwner_id B ?s = ResourceOwner_id A st"
    "ResourceOwner_name B ?s = ResourceOwner_name A st"
    "ResourceOwner_resource B ?s \<noteq> None"
    "ResourceOwner_resource B ?s \<noteq> ResourceOwner_resource A ?s"
    using ne p pn
    by (simp_all add: ResourceOwner_id_def ResourceOwner_name_def ResourceOwner_resource_def)
  show "\<exists>s. ResourceOwner_copy_ctor B A (NameCopied f) st = Returned () s \<and>
                ResourceOwner_id B s = ResourceOwner_id A st \<and>
                ResourceOwner_name B s = ResourceOwner_name A st \<and>
                ResourceOwner_resource B s \<noteq> None \<and>
                ResourceOwner_resource B s \<noteq> ResourceOwner_resource A s \<and>
                resource_get B s = Returned v s \<and> resource_get A s = Returned v s \<and>
                (\<forall>w. \<exists>s'. resource_set B w s = Returned () s' \<and>
                     resource_get B s' = Returned w s' \<and> resource_get A s' = Returned v s') \<and>
                (\<forall>w. \<exists>s'. resource_set A w s = Returned () s' \<and>
                     resource_get A s' = Returned w s' \<and> resource_get B s' = Returned v s')"
    using eq fields gB gA sB sA by blast
next
  fix f :: nat assume "ResourceOwner_resource A st = None"
  then have n: "m_resource (objs st A) = None" by (simp add: ResourceOwner_resource_def)
  show "\<exists>s. ResourceOwner_copy_ctor B A (NameCopied f) st = Returned () s \<and>
                ResourceOwner_id B s = ResourceOwner_id A st \<and>
                ResourceOwner_name B s = ResourceOwner_name A st \<and>
                ResourceOwner_resource B s = None \<and> heap s = heap st \<and>
                next_addr s = next_addr st"
    unfolding copy_ctor_null [OF B A n]
    by (simp add: ResourceOwner_id_def ResourceOwner_name_def ResourceOwner_resource_def)
next
  show "\<exists>s. ResourceOwner_copy_ctor B A NameThrows st = Thrown s \<and>
              live s = live st \<and> heap s = heap st \<and> next_addr s = next_addr st \<and>
              released s = released st \<and> free_store s = free_store st \<and>
              (\<forall>x. x \<noteq> B \<longrightarrow> objs s x = objs st x)"
    unfolding copy_ctor_name_throws [OF B A] by simp
next
  assume "ResourceOwner_resource A st \<noteq> None"
  then obtain q where q: "m_resource (objs st A) = Some q"
    by (auto simp add: ResourceOwner_resource_def)
  show "\<exists>s. ResourceOwner_copy_ctor B A (NameCopied 0) st = Thrown s \<and>
                live s = live st \<and> heap s = heap st \<and> next_addr s = next_addr st \<and>
                released s = released st \<and> (\<forall>x. x \<noteq> B \<longrightarrow> objs s x = objs st x)"
    unfolding copy_ctor_bad_alloc [OF B A q] by simp
qed

theorem copy_ctor_deep_copy_witness:
  "ownership_ok (demo_state 1) \<and> 1 \<in> live (demo_state 1) \<and> 2 \<in> live (demo_state 1) \<and>
   5 \<notin> live (demo_state 1) \<and>
   resource_get 1 (demo_state 1) = Returned 101 (demo_state 1) \<and> (1::nat) \<noteq> 0 \<and>
   ResourceOwner_resource 2 (demo_state 1) = None \<and>
   ResourceOwner_resource 1 (demo_state 1) \<noteq> None \<and>
   (\<exists>s. ResourceOwner_copy_ctor 5 1 (NameCopied 1) (demo_state 1) = Returned () s \<and>
        ResourceOwner_resource 5 s \<noteq> ResourceOwner_resource 1 s \<and>
        resource_get 5 s = Returned 101 s \<and>
        (\<exists>s'. resource_set 5 7 s = Returned () s' \<and> resource_get 1 s' = Returned 101 s')) \<and>
   (\<exists>s. ResourceOwner_copy_ctor 5 2 (NameCopied 1) (demo_state 1) = Returned () s \<and>
        ResourceOwner_resource 5 s = None) \<and>
   (\<exists>s. ResourceOwner_copy_ctor 5 2 NameThrows (demo_state 1) = Thrown s \<and>
        live s = live (demo_state 1)) \<and>
   (\<exists>s. ResourceOwner_copy_ctor 5 1 (NameCopied 0) (demo_state 1) = Thrown s \<and>
        heap s = heap (demo_state 1))"
proof -
  have h: "(1::nat) \<in> live (demo_state 1)" "(2::nat) \<in> live (demo_state 1)"
    "(5::nat) \<notin> live (demo_state 1)"
    "resource_get 1 (demo_state 1) = Returned 101 (demo_state 1) \<and> (1::nat) \<noteq> 0"
    "ResourceOwner_resource 2 (demo_state 1) = None"
    "ResourceOwner_resource 1 (demo_state 1) \<noteq> None"
    by (simp_all add: resource_get_Returned)
  from copy_ctor_deep_copy [OF ok_demo h(1,3)] h(4)
  have a: "\<exists>s. ResourceOwner_copy_ctor 5 1 (NameCopied 1) (demo_state 1) = Returned () s \<and>
        ResourceOwner_resource 5 s \<noteq> ResourceOwner_resource 1 s \<and>
        resource_get 5 s = Returned 101 s \<and>
        (\<exists>s'. resource_set 5 7 s = Returned () s' \<and> resource_get 1 s' = Returned 101 s')"
    by blast
  from copy_ctor_deep_copy [OF ok_demo h(2,3)] h(5)
  have b: "\<exists>s. ResourceOwner_copy_ctor 5 2 (NameCopied 1) (demo_state 1) = Returned () s \<and>
        ResourceOwner_resource 5 s = None"
    by blast
  from copy_ctor_deep_copy [OF ok_demo h(2,3)]
  have c: "\<exists>s. ResourceOwner_copy_ctor 5 2 NameThrows (demo_state 1) = Thrown s \<and>
        live s = live (demo_state 1)"
    by blast
  from copy_ctor_deep_copy [OF ok_demo h(1,3)] h(6)
  have d: "\<exists>s. ResourceOwner_copy_ctor 5 1 (NameCopied 0) (demo_state 1) = Thrown s \<and>
        heap s = heap (demo_state 1)"
    by blast
  from ok_demo h a b c d show ?thesis by simp
qed

text \<open>
  Claim C3. In a state where the ownership discipline holds, copy assignment between two
  different live owners whose copy of the name is made returns the reference to \<open>this\<close>,
  with the id and the name of \<open>other\<close> in \<open>this\<close> and \<open>other\<close> unchanged, and treats the
  resource by cases. Both own one: the Resource of \<open>this\<close> takes the value of the one of
  \<open>other\<close> in place, behind the same handle, and nothing is allocated or released. Only
  \<open>this\<close> owns one: it is released and the handle of \<open>this\<close> is null. Only \<open>other\<close> owns one
  (and the free store is not exhausted): \<open>this\<close> gets a new allocation holding a copy.
  Neither owns one: the handle of \<open>this\<close> stays null and the heap is unchanged. When the
  copy of the name throws, in whichever case, the assignment throws with the id of \<open>other\<close>
  in \<open>this\<close> and the name and the resource of \<open>this\<close> as they were.
\<close>

theorem copy_assign_four_cases:
  assumes ok: "ownership_ok st" and l: "this \<in> live st" "other \<in> live st" and ne: "this \<noteq> other"
  shows "(\<forall>p q f. ResourceOwner_resource this st = Some p \<and> ResourceOwner_resource other st = Some q \<longrightarrow>
            (\<exists>s r r'. ResourceOwner_copy_assign this other (NameCopied f) st = Returned this s \<and>
               heap st p = Some r \<and> heap st q = Some r' \<and>
               ResourceOwner_id this s = ResourceOwner_id other st \<and>
               ResourceOwner_name this s = ResourceOwner_name other st \<and>
               ResourceOwner_resource this s = Some p \<and>
               heap s = (heap st)(p \<mapsto> Resource_copy_assign r r') \<and>
               resource_get this s = Returned (Resource_get r') s \<and>
               next_addr s = next_addr st \<and> free_store s = f \<and>
               released s = released st \<and> objs s other = objs st other)) \<and>
         (\<forall>p f. ResourceOwner_resource this st = Some p \<and> ResourceOwner_resource other st = None \<longrightarrow>
            (\<exists>s. ResourceOwner_copy_assign this other (NameCopied f) st = Returned this s \<and>
               ResourceOwner_id this s = ResourceOwner_id other st \<and>
               ResourceOwner_name this s = ResourceOwner_name other st \<and>
               ResourceOwner_resource this s = None \<and>
               heap s = (heap st)(p := None) \<and> released s = released st @ [p] \<and>
               next_addr s = next_addr st \<and> objs s other = objs st other)) \<and>
         (\<forall>q f. ResourceOwner_resource this st = None \<and> ResourceOwner_resource other st = Some q \<and>
              f \<noteq> 0 \<longrightarrow>
            (\<exists>s r'. ResourceOwner_copy_assign this other (NameCopied f) st = Returned this s \<and>
               heap st q = Some r' \<and> heap st (next_addr st) = None \<and>
               ResourceOwner_id this s = ResourceOwner_id other st \<and>
               ResourceOwner_name this s = ResourceOwner_name other st \<and>
               ResourceOwner_resource this s = Some (next_addr st) \<and>
               heap s = (heap st)(next_addr st \<mapsto> Resource_copy_ctor r') \<and>
               resource_get this s = Returned (Resource_get r') s \<and>
               next_addr s = Suc (next_addr st) \<and> released s = released st \<and>
               objs s other = objs st other)) \<and>
         (\<forall>f. ResourceOwner_resource this st = None \<and> ResourceOwner_resource other st = None \<longrightarrow>
            (\<exists>s. ResourceOwner_copy_assign this other (NameCopied f) st = Returned this s \<and>
               ResourceOwner_id this s = ResourceOwner_id other st \<and>
               ResourceOwner_name this s = ResourceOwner_name other st \<and>
               ResourceOwner_resource this s = None \<and>
               heap s = heap st \<and> released s = released st \<and>
               next_addr s = next_addr st \<and> objs s other = objs st other)) \<and>
         (\<exists>s. ResourceOwner_copy_assign this other NameThrows st = Thrown s \<and>
               ResourceOwner_id this s = ResourceOwner_id other st \<and>
               ResourceOwner_name this s = ResourceOwner_name this st \<and>
               ResourceOwner_resource this s = ResourceOwner_resource this st \<and>
               heap s = heap st \<and> released s = released st \<and> next_addr s = next_addr st \<and>
               free_store s = free_store st \<and> live s = live st \<and>
               (\<forall>x. x \<noteq> this \<longrightarrow> objs s x = objs st x))"
proof (intro conjI allI impI)
  fix p q and f :: nat
  assume "ResourceOwner_resource this st = Some p \<and> ResourceOwner_resource other st = Some q"
  then have p: "m_resource (objs st this) = Some p" and q: "m_resource (objs st other) = Some q"
    by (simp_all add: ResourceOwner_resource_def)
  from ok_heap [OF ok l(1) p] obtain r where r: "heap st p = Some r" ..
  from ok_heap [OF ok l(2) q] obtain r' where r': "heap st q = Some r'" ..
  show "\<exists>s r r'. ResourceOwner_copy_assign this other (NameCopied f) st = Returned this s \<and>
               heap st p = Some r \<and> heap st q = Some r' \<and>
               ResourceOwner_id this s = ResourceOwner_id other st \<and>
               ResourceOwner_name this s = ResourceOwner_name other st \<and>
               ResourceOwner_resource this s = Some p \<and>
               heap s = (heap st)(p \<mapsto> Resource_copy_assign r r') \<and>
               resource_get this s = Returned (Resource_get r') s \<and>
               next_addr s = next_addr st \<and> free_store s = f \<and>
               released s = released st \<and> objs s other = objs st other"
    unfolding copy_assign_both [OF l ne p q r r']
    using l ne p r r'
    by (simp add: ResourceOwner_id_def ResourceOwner_name_def ResourceOwner_resource_def
        resource_get_Returned Resource_get_def Resource_copy_assign_def)
next
  fix p and f :: nat
  assume "ResourceOwner_resource this st = Some p \<and> ResourceOwner_resource other st = None"
  then have p: "m_resource (objs st this) = Some p" and q: "m_resource (objs st other) = None"
    by (simp_all add: ResourceOwner_resource_def)
  from ok_heap [OF ok l(1) p] obtain r where r: "heap st p = Some r" ..
  show "\<exists>s. ResourceOwner_copy_assign this other (NameCopied f) st = Returned this s \<and>
               ResourceOwner_id this s = ResourceOwner_id other st \<and>
               ResourceOwner_name this s = ResourceOwner_name other st \<and>
               ResourceOwner_resource this s = None \<and>
               heap s = (heap st)(p := None) \<and> released s = released st @ [p] \<and>
               next_addr s = next_addr st \<and> objs s other = objs st other"
    unfolding copy_assign_release [OF l ne p q r]
    using l ne
    by (simp add: ResourceOwner_id_def ResourceOwner_name_def ResourceOwner_resource_def)
next
  fix q and f :: nat
  assume "ResourceOwner_resource this st = None \<and> ResourceOwner_resource other st = Some q \<and>
              f \<noteq> 0"
  then have p: "m_resource (objs st this) = None" and q: "m_resource (objs st other) = Some q"
    and f: "f \<noteq> 0"
    by (simp_all add: ResourceOwner_resource_def)
  from ok_heap [OF ok l(2) q] obtain r' where r': "heap st q = Some r'" ..
  have fresh: "heap st (next_addr st) = None" using ok by (rule ok_fresh)
  show "\<exists>s r'. ResourceOwner_copy_assign this other (NameCopied f) st = Returned this s \<and>
               heap st q = Some r' \<and> heap st (next_addr st) = None \<and>
               ResourceOwner_id this s = ResourceOwner_id other st \<and>
               ResourceOwner_name this s = ResourceOwner_name other st \<and>
               ResourceOwner_resource this s = Some (next_addr st) \<and>
               heap s = (heap st)(next_addr st \<mapsto> Resource_copy_ctor r') \<and>
               resource_get this s = Returned (Resource_get r') s \<and>
               next_addr s = Suc (next_addr st) \<and> released s = released st \<and>
               objs s other = objs st other"
    unfolding copy_assign_allocate [OF l ne p q r' f]
    using l ne r' fresh
    by (simp add: ResourceOwner_id_def ResourceOwner_name_def ResourceOwner_resource_def
        resource_get_Returned Resource_get_def Resource_copy_ctor_def)
next
  fix f :: nat
  assume "ResourceOwner_resource this st = None \<and> ResourceOwner_resource other st = None"
  then have p: "m_resource (objs st this) = None" and q: "m_resource (objs st other) = None"
    by (simp_all add: ResourceOwner_resource_def)
  show "\<exists>s. ResourceOwner_copy_assign this other (NameCopied f) st = Returned this s \<and>
               ResourceOwner_id this s = ResourceOwner_id other st \<and>
               ResourceOwner_name this s = ResourceOwner_name other st \<and>
               ResourceOwner_resource this s = None \<and>
               heap s = heap st \<and> released s = released st \<and>
               next_addr s = next_addr st \<and> objs s other = objs st other"
    unfolding copy_assign_neither [OF l ne p q]
    using l ne
    by (simp add: ResourceOwner_id_def ResourceOwner_name_def ResourceOwner_resource_def)
next
  show "\<exists>s. ResourceOwner_copy_assign this other NameThrows st = Thrown s \<and>
               ResourceOwner_id this s = ResourceOwner_id other st \<and>
               ResourceOwner_name this s = ResourceOwner_name this st \<and>
               ResourceOwner_resource this s = ResourceOwner_resource this st \<and>
               heap s = heap st \<and> released s = released st \<and> next_addr s = next_addr st \<and>
               free_store s = free_store st \<and> live s = live st \<and>
               (\<forall>x. x \<noteq> this \<longrightarrow> objs s x = objs st x)"
    unfolding copy_assign_name_throws [OF l ne]
    by (simp add: ResourceOwner_id_def ResourceOwner_name_def ResourceOwner_resource_def)
qed

theorem copy_assign_four_cases_witness:
  "ownership_ok (demo_state 1) \<and>
   1 \<in> live (demo_state 1) \<and> 2 \<in> live (demo_state 1) \<and> 3 \<in> live (demo_state 1) \<and>
   4 \<in> live (demo_state 1) \<and>
   ResourceOwner_resource 1 (demo_state 1) = Some 0 \<and>
   ResourceOwner_resource 2 (demo_state 1) = None \<and>
   ResourceOwner_resource 3 (demo_state 1) = Some 1 \<and>
   ResourceOwner_resource 4 (demo_state 1) = None \<and> (1::nat) \<noteq> 0 \<and>
   (\<exists>s. ResourceOwner_copy_assign 1 3 (NameCopied 0) (demo_state 1) = Returned 1 s \<and>
        ResourceOwner_id 1 s = 3 \<and> ResourceOwner_name 1 s = ''id3'' \<and>
        ResourceOwner_resource 1 s = Some 0 \<and> resource_get 1 s = Returned 303 s \<and>
        released s = []) \<and>
   (\<exists>s. ResourceOwner_copy_assign 1 2 (NameCopied 1) (demo_state 1) = Returned 1 s \<and>
        ResourceOwner_id 1 s = 2 \<and> ResourceOwner_resource 1 s = None \<and> released s = [0]) \<and>
   (\<exists>s. ResourceOwner_copy_assign 2 1 (NameCopied 1) (demo_state 1) = Returned 2 s \<and>
        ResourceOwner_id 2 s = 1 \<and> ResourceOwner_resource 2 s = Some 2 \<and>
        resource_get 2 s = Returned 101 s) \<and>
   (\<exists>s. ResourceOwner_copy_assign 2 4 (NameCopied 1) (demo_state 1) = Returned 2 s \<and>
        ResourceOwner_id 2 s = 4 \<and> ResourceOwner_resource 2 s = None \<and> released s = []) \<and>
   (\<exists>s. ResourceOwner_copy_assign 1 3 NameThrows (demo_state 1) = Thrown s \<and>
        ResourceOwner_id 1 s = 3 \<and> ResourceOwner_name 1 s = ''id1'' \<and>
        ResourceOwner_resource 1 s = Some 0 \<and> heap s = heap (demo_state 1))"
proof -
  have l: "(1::nat) \<in> live (demo_state 1)" "(2::nat) \<in> live (demo_state 1)"
    "(3::nat) \<in> live (demo_state 1)" "(4::nat) \<in> live (demo_state 1)" by simp_all
  have h: "ResourceOwner_resource 1 (demo_state 1) = Some 0"
    "ResourceOwner_resource 2 (demo_state 1) = None"
    "ResourceOwner_resource 3 (demo_state 1) = Some 1"
    "ResourceOwner_resource 4 (demo_state 1) = None" "(1::nat) \<noteq> 0"
    by simp_all
  have a: "\<exists>s. ResourceOwner_copy_assign 1 3 (NameCopied 0) (demo_state 1) = Returned 1 s \<and>
        ResourceOwner_id 1 s = 3 \<and> ResourceOwner_name 1 s = ''id3'' \<and>
        ResourceOwner_resource 1 s = Some 0 \<and> resource_get 1 s = Returned 303 s \<and>
        released s = []"
    using copy_assign_four_cases [OF ok_demo l(1) l(3), THEN conjunct1, rule_format, of 0 1 0]
    by (auto simp add: Resource_get_def)
  have b: "\<exists>s. ResourceOwner_copy_assign 1 2 (NameCopied 1) (demo_state 1) = Returned 1 s \<and>
        ResourceOwner_id 1 s = 2 \<and> ResourceOwner_resource 1 s = None \<and> released s = [0]"
    using copy_assign_four_cases [OF ok_demo l(1) l(2), THEN conjunct2, THEN conjunct1,
        rule_format, of 0 1]
    by auto
  have c: "\<exists>s. ResourceOwner_copy_assign 2 1 (NameCopied 1) (demo_state 1) = Returned 2 s \<and>
        ResourceOwner_id 2 s = 1 \<and> ResourceOwner_resource 2 s = Some 2 \<and>
        resource_get 2 s = Returned 101 s"
    using copy_assign_four_cases [OF ok_demo l(2) l(1), THEN conjunct2, THEN conjunct2,
        THEN conjunct1, rule_format, of 0 1]
    by (auto simp add: Resource_get_def)
  have d: "\<exists>s. ResourceOwner_copy_assign 2 4 (NameCopied 1) (demo_state 1) = Returned 2 s \<and>
        ResourceOwner_id 2 s = 4 \<and> ResourceOwner_resource 2 s = None \<and> released s = []"
    using copy_assign_four_cases [OF ok_demo l(2) l(4), THEN conjunct2, THEN conjunct2,
        THEN conjunct2, THEN conjunct1, rule_format, of 1]
    by auto
  have e: "\<exists>s. ResourceOwner_copy_assign 1 3 NameThrows (demo_state 1) = Thrown s \<and>
        ResourceOwner_id 1 s = 3 \<and> ResourceOwner_name 1 s = ''id1'' \<and>
        ResourceOwner_resource 1 s = Some 0 \<and> heap s = heap (demo_state 1)"
    using copy_assign_four_cases [OF ok_demo l(1) l(3), THEN conjunct2, THEN conjunct2,
        THEN conjunct2, THEN conjunct2]
    by auto
  from ok_demo l h a b c d e show ?thesis by simp
qed

text \<open>
  Claim C4. In a state where the ownership discipline holds, move construction of \<open>B\<close> from
  a live owner \<open>A\<close> with the handle \<open>p\<close> returns with the id, the name and the handle \<open>p\<close> in
  \<open>B\<close>, the heap untouched (so \<open>B\<close> reads the value \<open>A\<close> read), nothing allocated or released,
  and the handle of \<open>A\<close> null. \<open>A\<close> is still a live object in a state where the discipline
  holds: its destructor returns and releases nothing, a copy of it (when the copy of the
  name is made) is an owner with a null handle, and copy construction from it and copy or
  move assignment to it from any live owner have no undefined behaviour.
\<close>

theorem move_ctor_transfers:
  assumes ok: "ownership_ok st" and A: "A \<in> live st" and B: "B \<notin> live st"
    and p: "ResourceOwner_resource A st = Some p"
  shows "\<exists>s. ResourceOwner_move_ctor B A leftover st = Returned () s \<and>
     ResourceOwner_id B s = ResourceOwner_id A st \<and>
     ResourceOwner_name B s = ResourceOwner_name A st \<and>
     ResourceOwner_resource B s = Some p \<and> heap s = heap st \<and>
     (\<exists>v. resource_get A st = Returned v st \<and> resource_get B s = Returned v s) \<and>
     released s = released st \<and> next_addr s = next_addr st \<and> free_store s = free_store st \<and>
     ResourceOwner_resource A s = None \<and> live s = insert B (live st) \<and> ownership_ok s \<and>
     (\<exists>s'. ResourceOwner_dtor A s = Returned () s' \<and> heap s' = heap s \<and>
           released s' = released s \<and> ownership_ok s') \<and>
     (\<forall>C. C \<notin> live s \<longrightarrow>
        (\<forall>f. \<exists>s'. ResourceOwner_copy_ctor C A (NameCopied f) s = Returned () s' \<and>
              ResourceOwner_resource C s' = None \<and> heap s' = heap s) \<and>
        (\<forall>u nc. ResourceOwner_copy_ctor C A nc s \<noteq> Undefined u)) \<and>
     (\<forall>X. X \<in> live s \<longrightarrow>
        (\<forall>u nc. ResourceOwner_copy_assign A X nc s \<noteq> Undefined u) \<and>
        (\<forall>u l. ResourceOwner_move_assign A X l s \<noteq> Undefined u))"
proof -
  let ?s = "st\<lparr>objs := (objs st)(B := \<lparr>m_id = m_id (objs st A), m_name = m_name (objs st A),
                                     m_resource = m_resource (objs st A)\<rparr>,
                              A := (objs st A)\<lparr>m_name := leftover, m_resource := None\<rparr>),
           live := insert B (live st)\<rparr>"
  from B A have ne: "B \<noteq> A" by auto
  from p have mp: "m_resource (objs st A) = Some p" by (simp add: ResourceOwner_resource_def)
  from ok_heap [OF ok A mp] obtain r where r: "heap st p = Some r" ..
  have eq: "ResourceOwner_move_ctor B A leftover st = Returned () ?s"
    by (rule move_ctor_closed [OF B A])
  have ok': "ownership_ok ?s"
    using move_ctor_keeps [OF ok, of B A leftover] unfolding eq by (simp add: keeps_ownership_def)
  have lA: "A \<in> live ?s" and lB: "live ?s = insert B (live st)" using A by simp_all
  have nA: "m_resource (objs ?s A) = None" by simp
  have fields: "ResourceOwner_id B ?s = ResourceOwner_id A st"
    "ResourceOwner_name B ?s = ResourceOwner_name A st"
    "ResourceOwner_resource B ?s = Some p" "ResourceOwner_resource A ?s = None"
    "heap ?s = heap st" "released ?s = released st" "next_addr ?s = next_addr st"
    "free_store ?s = free_store st"
    using ne mp
    by (simp_all add: ResourceOwner_id_def ResourceOwner_name_def ResourceOwner_resource_def)
  have val: "\<exists>v. resource_get A st = Returned v st \<and> resource_get B ?s = Returned v ?s"
    using A ne mp r by (simp add: resource_get_Returned)
  have dt: "\<exists>s'. ResourceOwner_dtor A ?s = Returned () s' \<and> heap s' = heap ?s \<and>
           released s' = released ?s \<and> ownership_ok s'"
    using dtor_keeps [OF ok', of A] unfolding dtor_null [OF lA nA]
    by (simp add: keeps_ownership_def)
  have cp: "(\<forall>f. \<exists>s'. ResourceOwner_copy_ctor C A (NameCopied f) ?s = Returned () s' \<and>
              ResourceOwner_resource C s' = None \<and> heap s' = heap ?s) \<and>
        (\<forall>u nc. ResourceOwner_copy_ctor C A nc ?s \<noteq> Undefined u)" if "C \<notin> live ?s" for C
  proof (intro conjI allI)
    fix f show "\<exists>s'. ResourceOwner_copy_ctor C A (NameCopied f) ?s = Returned () s' \<and>
              ResourceOwner_resource C s' = None \<and> heap s' = heap ?s"
      unfolding copy_ctor_null [OF that lA nA] by (simp add: ResourceOwner_resource_def)
  next
    fix u nc show "ResourceOwner_copy_ctor C A nc ?s \<noteq> Undefined u"
      by (rule copy_ctor_defined [OF ok' that lA])
  qed
  have asg: "(\<forall>u nc. ResourceOwner_copy_assign A X nc ?s \<noteq> Undefined u) \<and>
        (\<forall>u l. ResourceOwner_move_assign A X l ?s \<noteq> Undefined u)" if "X \<in> live ?s" for X
    using copy_assign_defined [OF ok' lA that] move_assign_defined [OF ok' lA that] by blast
  show ?thesis
    unfolding eq using fields val ok' lA lB dt cp asg by blast
qed

theorem move_ctor_transfers_witness:
  "ownership_ok (demo_state 0) \<and> 1 \<in> live (demo_state 0) \<and> 5 \<notin> live (demo_state 0) \<and>
   ResourceOwner_resource 1 (demo_state 0) = Some 0 \<and>
   (\<exists>s. ResourceOwner_move_ctor 5 1 [] (demo_state 0) = Returned () s \<and>
        ResourceOwner_id 5 s = 1 \<and> ResourceOwner_name 5 s = ''id1'' \<and>
        ResourceOwner_resource 5 s = Some 0 \<and> resource_get 5 s = Returned 101 s \<and>
        ResourceOwner_resource 1 s = None \<and> 6 \<notin> live s \<and> 3 \<in> live s \<and>
        (\<exists>s'. ResourceOwner_dtor 1 s = Returned () s' \<and> released s' = []) \<and>
        (\<exists>s'. ResourceOwner_copy_ctor 6 1 (NameCopied 0) s = Returned () s' \<and>
              ResourceOwner_resource 6 s' = None) \<and>
        ResourceOwner_copy_assign 1 3 NameThrows s \<noteq> Undefined DoubleDelete \<and>
        ResourceOwner_move_assign 1 3 [] s \<noteq> Undefined DoubleDelete)"
proof -
  have h: "(1::nat) \<in> live (demo_state 0)" "(5::nat) \<notin> live (demo_state 0)"
    "ResourceOwner_resource 1 (demo_state 0) = Some 0" by simp_all
  have g: "resource_get 1 (demo_state 0) = Returned 101 (demo_state 0)"
    by (simp add: resource_get_Returned)
  from move_ctor_transfers [OF ok_demo h, of "[]"] obtain s where
    s: "ResourceOwner_move_ctor 5 1 [] (demo_state 0) = Returned () s"
      "ResourceOwner_id 5 s = ResourceOwner_id 1 (demo_state 0)"
      "ResourceOwner_name 5 s = ResourceOwner_name 1 (demo_state 0)"
      "ResourceOwner_resource 5 s = Some 0"
      "\<exists>v. resource_get 1 (demo_state 0) = Returned v (demo_state 0) \<and> resource_get 5 s = Returned v s"
      "released s = released (demo_state 0)"
      "ResourceOwner_resource 1 s = None" "live s = insert 5 (live (demo_state 0))"
      "\<exists>s'. ResourceOwner_dtor 1 s = Returned () s' \<and> heap s' = heap s \<and>
           released s' = released s \<and> ownership_ok s'"
      "\<forall>C. C \<notin> live s \<longrightarrow>
        (\<forall>f. \<exists>s'. ResourceOwner_copy_ctor C 1 (NameCopied f) s = Returned () s' \<and>
              ResourceOwner_resource C s' = None \<and> heap s' = heap s) \<and>
        (\<forall>u nc. ResourceOwner_copy_ctor C 1 nc s \<noteq> Undefined u)"
      "\<forall>X. X \<in> live s \<longrightarrow>
        (\<forall>u nc. ResourceOwner_copy_assign 1 X nc s \<noteq> Undefined u) \<and>
        (\<forall>u l. ResourceOwner_move_assign 1 X l s \<noteq> Undefined u)"
    by - (erule exE, elim conjE, rule that; assumption)
  have l6: "6 \<notin> live s" and l3: "3 \<in> live s" using s(8) by simp_all
  from s(5) g have v: "resource_get 5 s = Returned 101 s" by simp
  from s(9) s(6) have d: "\<exists>s'. ResourceOwner_dtor 1 s = Returned () s' \<and> released s' = []"
    by auto
  from s(10) l6 have c: "\<exists>s'. ResourceOwner_copy_ctor 6 1 (NameCopied 0) s = Returned () s' \<and>
      ResourceOwner_resource 6 s' = None" by blast
  from s(11) l3 have a: "ResourceOwner_copy_assign 1 3 NameThrows s \<noteq> Undefined DoubleDelete"
    "ResourceOwner_move_assign 1 3 [] s \<noteq> Undefined DoubleDelete" by blast+
  have "\<exists>s. ResourceOwner_move_ctor 5 1 [] (demo_state 0) = Returned () s \<and>
        ResourceOwner_id 5 s = 1 \<and> ResourceOwner_name 5 s = ''id1'' \<and>
        ResourceOwner_resource 5 s = Some 0 \<and> resource_get 5 s = Returned 101 s \<and>
        ResourceOwner_resource 1 s = None \<and> 6 \<notin> live s \<and> 3 \<in> live s \<and>
        (\<exists>s'. ResourceOwner_dtor 1 s = Returned () s' \<and> released s' = []) \<and>
        (\<exists>s'. ResourceOwner_copy_ctor 6 1 (NameCopied 0) s = Returned () s' \<and>
              ResourceOwner_resource 6 s' = None) \<and>
        ResourceOwner_copy_assign 1 3 NameThrows s \<noteq> Undefined DoubleDelete \<and>
        ResourceOwner_move_assign 1 3 [] s \<noteq> Undefined DoubleDelete"
    using s(1,2,3,4,7) v l6 l3 d c a by (intro exI [of _ s]) simp
  with ok_demo h show ?thesis by simp
qed


text \<open>
  Claim C5. In a state where the ownership discipline holds, move assignment between two
  different live owners returns the reference to \<open>this\<close>; the resource \<open>this\<close> owned before, if
  any, is the one allocation released; \<open>this\<close> holds the id, the name and the handle of
  \<open>other\<close>, whose resource is still live and unchanged; the handle of \<open>other\<close> is null; no
  other object changes and the discipline still holds.
\<close>

theorem move_assign_transfers:
  assumes ok: "ownership_ok st" and l: "this \<in> live st" "other \<in> live st"
    and ne: "this \<noteq> other"
  shows "\<exists>s. ResourceOwner_move_assign this other leftover st = Returned this s \<and>
     ResourceOwner_id this s = ResourceOwner_id other st \<and>
     ResourceOwner_name this s = ResourceOwner_name other st \<and>
     ResourceOwner_resource this s = ResourceOwner_resource other st \<and>
     ResourceOwner_resource other s = None \<and>
     released s = released st @ (case ResourceOwner_resource this st of None \<Rightarrow> [] | Some p \<Rightarrow> [p]) \<and>
     heap s = (case ResourceOwner_resource this st of None \<Rightarrow> heap st
               | Some p \<Rightarrow> (heap st)(p := None)) \<and>
     (\<forall>q. ResourceOwner_resource other st = Some q \<longrightarrow> heap s q = heap st q \<and> heap s q \<noteq> None) \<and>
     next_addr s = next_addr st \<and> live s = live st \<and>
     (\<forall>x. x \<noteq> this \<and> x \<noteq> other \<longrightarrow> objs s x = objs st x) \<and> ownership_ok s"
proof (cases "m_resource (objs st this)")
  case None
  have keep: "\<forall>q. ResourceOwner_resource other st = Some q \<longrightarrow> heap st q \<noteq> None"
    using ok_heap [OF ok l(2)] by (auto simp add: ResourceOwner_resource_def)
  from move_assign_keeps [OF ok, of this other leftover] keep show ?thesis
    unfolding move_assign_null [OF l ne None]
    using ne None
    by (simp add: keeps_ownership_def ResourceOwner_id_def ResourceOwner_name_def
        ResourceOwner_resource_def)
next
  case (Some p)
  from ok_heap [OF ok l(1) Some] obtain r where r: "heap st p = Some r" ..
  have keep: "\<forall>q. ResourceOwner_resource other st = Some q \<longrightarrow> heap st q \<noteq> None \<and> q \<noteq> p"
    using ok_heap [OF ok l(2)] ok_distinct_handles [OF ok l ne Some]
    by (auto simp add: ResourceOwner_resource_def)
  from move_assign_keeps [OF ok, of this other leftover] keep show ?thesis
    unfolding move_assign_release [OF l ne Some r]
    using ne Some
    by (simp add: keeps_ownership_def ResourceOwner_id_def ResourceOwner_name_def
        ResourceOwner_resource_def)
qed

theorem move_assign_transfers_witness:
  "ownership_ok (demo_state 0) \<and> 1 \<in> live (demo_state 0) \<and> 3 \<in> live (demo_state 0) \<and>
   (1::nat) \<noteq> 3 \<and> ResourceOwner_resource 3 (demo_state 0) = Some 1 \<and>
   (\<exists>s. ResourceOwner_move_assign 1 3 [] (demo_state 0) = Returned 1 s \<and>
        ResourceOwner_id 1 s = 3 \<and> ResourceOwner_name 1 s = ''id3'' \<and>
        ResourceOwner_resource 1 s = Some 1 \<and> ResourceOwner_resource 3 s = None \<and>
        released s = [0] \<and> heap s 0 = None \<and> heap s 1 = Some (Resource_ctor 303))"
proof -
  have l: "(1::nat) \<in> live (demo_state 0)" "(3::nat) \<in> live (demo_state 0)" "(1::nat) \<noteq> 3"
    by simp_all
  from move_assign_transfers [OF ok_demo l, of "[]"]
  have "\<exists>s. ResourceOwner_move_assign 1 3 [] (demo_state 0) = Returned 1 s \<and>
        ResourceOwner_id 1 s = 3 \<and> ResourceOwner_name 1 s = ''id3'' \<and>
        ResourceOwner_resource 1 s = Some 1 \<and> ResourceOwner_resource 3 s = None \<and>
        released s = [0] \<and> heap s 0 = None \<and> heap s 1 = Some (Resource_ctor 303)"
    by (auto simp add: Resource_ctor_def)
  with ok_demo l show ?thesis by simp
qed


text \<open>
  Claim C6. Copy assignment of a live owner to itself returns the reference to it and leaves
  the whole state as it was: id, name, handle, the value of the resource, the free store and
  the log of releases. No name is copied on this path.
\<close>

theorem self_copy_assign_noop:
  "A \<in> live st \<Longrightarrow> ResourceOwner_copy_assign A A nc st = Returned A st"
  by (simp add: ResourceOwner_copy_assign_def)

theorem self_copy_assign_noop_witness:
  "(1::nat) \<in> live (demo_state 0) \<and> (2::nat) \<in> live (demo_state 0) \<and>
   ResourceOwner_copy_assign 1 1 (NameCopied 0) (demo_state 0) = Returned 1 (demo_state 0) \<and>
   ResourceOwner_copy_assign 2 2 NameThrows (demo_state 0) = Returned 2 (demo_state 0)"
  using self_copy_assign_noop [of 1 "demo_state 0" "NameCopied 0"]
    self_copy_assign_noop [of 2 "demo_state 0" NameThrows]
  by simp


text \<open>
  Claim C7, as the code has it. Copy assignment between two different live owners, in a
  state where the ownership discipline holds, throws at the allocation of the deep resource
  copy exactly when the name has been copied, \<open>this\<close> owns no resource, \<open>other\<close> owns one
  and the free store is exhausted. In the state at that throw \<open>this\<close> already holds the id
  and the name of \<open>other\<close>; its handle is null as before, nothing has been allocated or
  released, no other object has changed and the discipline still holds. The one other
  throw is that of the copy of the name, in any branch: \<open>this\<close> then holds the id of
  \<open>other\<close> and its own name and resource, everything else as before.
\<close>

theorem copy_assign_bad_alloc_basic_guarantee:
  assumes ok: "ownership_ok st" and l: "this \<in> live st" "other \<in> live st"
    and ne: "this \<noteq> other"
  shows "(\<forall>f. (\<exists>s. ResourceOwner_copy_assign this other (NameCopied f) st = Thrown s) \<longleftrightarrow>
            ResourceOwner_resource this st = None \<and> ResourceOwner_resource other st \<noteq> None \<and>
            f = 0) \<and>
         (\<forall>f s. ResourceOwner_copy_assign this other (NameCopied f) st = Thrown s \<longrightarrow>
            ResourceOwner_id this s = ResourceOwner_id other st \<and>
            ResourceOwner_name this s = ResourceOwner_name other st \<and>
            ResourceOwner_resource this s = None \<and>
            (\<forall>x. x \<noteq> this \<longrightarrow> objs s x = objs st x) \<and>
            live s = live st \<and> heap s = heap st \<and> released s = released st \<and>
            next_addr s = next_addr st \<and> ownership_ok s) \<and>
         (\<exists>s. ResourceOwner_copy_assign this other NameThrows st = Thrown s \<and>
            ResourceOwner_id this s = ResourceOwner_id other st \<and>
            ResourceOwner_name this s = ResourceOwner_name this st \<and>
            ResourceOwner_resource this s = ResourceOwner_resource this st \<and>
            (\<forall>x. x \<noteq> this \<longrightarrow> objs s x = objs st x) \<and>
            live s = live st \<and> heap s = heap st \<and> released s = released st \<and>
            next_addr s = next_addr st \<and> free_store s = free_store st \<and> ownership_ok s)"
proof -
  have alloc: "((\<exists>s. ResourceOwner_copy_assign this other (NameCopied f) st = Thrown s) \<longleftrightarrow>
            ResourceOwner_resource this st = None \<and> ResourceOwner_resource other st \<noteq> None \<and>
            f = 0) \<and>
         (\<forall>s. ResourceOwner_copy_assign this other (NameCopied f) st = Thrown s \<longrightarrow>
            ResourceOwner_id this s = ResourceOwner_id other st \<and>
            ResourceOwner_name this s = ResourceOwner_name other st \<and>
            ResourceOwner_resource this s = None \<and>
            (\<forall>x. x \<noteq> this \<longrightarrow> objs s x = objs st x) \<and>
            live s = live st \<and> heap s = heap st \<and> released s = released st \<and>
            next_addr s = next_addr st \<and> ownership_ok s)" for f
  proof (cases "m_resource (objs st this)")
    case tn: None
    show ?thesis
    proof (cases "m_resource (objs st other)")
      case None
      show ?thesis
        unfolding copy_assign_neither [OF l ne tn None]
        using tn None by (simp add: ResourceOwner_resource_def)
    next
      case (Some q)
      from ok_heap [OF ok l(2) Some] obtain r' where r': "heap st q = Some r'" ..
      show ?thesis
      proof (cases "f = 0")
        case True
        from copy_assign_keeps [OF ok, of this other "NameCopied 0"] show ?thesis
          unfolding True copy_assign_bad_alloc [OF l ne tn Some]
          using tn Some
          by (simp add: keeps_ownership_def ResourceOwner_id_def ResourceOwner_name_def
              ResourceOwner_resource_def)
      next
        case False
        show ?thesis
          unfolding copy_assign_allocate [OF l ne tn Some r' False]
          using False by simp
      qed
    qed
  next
    case ts: (Some p)
    from ok_heap [OF ok l(1) ts] obtain r where r: "heap st p = Some r" ..
    show ?thesis
    proof (cases "m_resource (objs st other)")
      case None
      show ?thesis
        unfolding copy_assign_release [OF l ne ts None r]
        using ts by (simp add: ResourceOwner_resource_def)
    next
      case (Some q)
      from ok_heap [OF ok l(2) Some] obtain r' where r': "heap st q = Some r'" ..
      show ?thesis
        unfolding copy_assign_both [OF l ne ts Some r r']
        using ts by (simp add: ResourceOwner_resource_def)
    qed
  qed
  have name: "\<exists>s. ResourceOwner_copy_assign this other NameThrows st = Thrown s \<and>
            ResourceOwner_id this s = ResourceOwner_id other st \<and>
            ResourceOwner_name this s = ResourceOwner_name this st \<and>
            ResourceOwner_resource this s = ResourceOwner_resource this st \<and>
            (\<forall>x. x \<noteq> this \<longrightarrow> objs s x = objs st x) \<and>
            live s = live st \<and> heap s = heap st \<and> released s = released st \<and>
            next_addr s = next_addr st \<and> free_store s = free_store st \<and> ownership_ok s"
    using copy_assign_keeps [OF ok, of this other NameThrows]
    unfolding copy_assign_name_throws [OF l ne]
    by (simp add: keeps_ownership_def ResourceOwner_id_def ResourceOwner_name_def
        ResourceOwner_resource_def)
  from alloc name show ?thesis by blast
qed

theorem copy_assign_bad_alloc_basic_guarantee_witness:
  "ownership_ok (demo_state 0) \<and> 2 \<in> live (demo_state 0) \<and> 1 \<in> live (demo_state 0) \<and>
   (2::nat) \<noteq> 1 \<and> ResourceOwner_resource 2 (demo_state 0) = None \<and>
   ResourceOwner_resource 1 (demo_state 0) \<noteq> None \<and>
   (\<exists>s. ResourceOwner_copy_assign 2 1 (NameCopied 0) (demo_state 0) = Thrown s \<and>
        ResourceOwner_id 2 s = 1 \<and> ResourceOwner_name 2 s = ''id1'' \<and>
        ResourceOwner_resource 2 s = None \<and> objs s 1 = objs (demo_state 0) 1 \<and>
        heap s = heap (demo_state 0) \<and> released s = [] \<and> ownership_ok s) \<and>
   (\<exists>s. ResourceOwner_copy_assign 2 1 NameThrows (demo_state 0) = Thrown s \<and>
        ResourceOwner_id 2 s = 1 \<and> ResourceOwner_name 2 s = ''id2'' \<and>
        ResourceOwner_resource 2 s = None \<and> heap s = heap (demo_state 0) \<and> ownership_ok s)"
proof -
  have l: "(2::nat) \<in> live (demo_state 0)" "(1::nat) \<in> live (demo_state 0)" "(2::nat) \<noteq> 1"
    by simp_all
  note g = copy_assign_bad_alloc_basic_guarantee [OF ok_demo l]
  from g [THEN conjunct1, rule_format, of 0]
  obtain s where s: "ResourceOwner_copy_assign 2 1 (NameCopied 0) (demo_state 0) = Thrown s"
    by auto
  from g [THEN conjunct2, THEN conjunct1, rule_format, OF s] s
  have a: "\<exists>s. ResourceOwner_copy_assign 2 1 (NameCopied 0) (demo_state 0) = Thrown s \<and>
        ResourceOwner_id 2 s = 1 \<and> ResourceOwner_name 2 s = ''id1'' \<and>
        ResourceOwner_resource 2 s = None \<and> objs s 1 = objs (demo_state 0) 1 \<and>
        heap s = heap (demo_state 0) \<and> released s = [] \<and> ownership_ok s"
    by (intro exI [of _ s]) simp
  from g [THEN conjunct2, THEN conjunct2]
  have b: "\<exists>s. ResourceOwner_copy_assign 2 1 NameThrows (demo_state 0) = Thrown s \<and>
        ResourceOwner_id 2 s = 1 \<and> ResourceOwner_name 2 s = ''id2'' \<and>
        ResourceOwner_resource 2 s = None \<and> heap s = heap (demo_state 0) \<and> ownership_ok s"
    by auto
  from ok_demo l a b show ?thesis by simp
qed

text \<open>
  The strong guarantee fails: \<open>operator=\<close> assigns \<open>m_id\<close> and \<open>m_name\<close> before it allocates.
  With the free store exhausted, \<open>o2 = o1\<close> throws and leaves \<open>o2\<close>, which was
  \<open>(2, "id2", nullptr)\<close>, holding the id 1 and the name \<open>"id1"\<close>.
\<close>

theorem copy_assign_strong_guarantee_counterexample:
  "1 \<in> live (demo_state 0) \<and> 2 \<in> live (demo_state 0) \<and> free_store (demo_state 0) = 0 \<and>
   ResourceOwner_resource 1 (demo_state 0) = Some 0 \<and>
   ResourceOwner_resource 2 (demo_state 0) = None \<and>
   ResourceOwner_copy_assign 2 1 (NameCopied 0) (demo_state 0) =
     Thrown (set_m_name 2 ''id1'' (set_m_id 2 1 (demo_state 0))) \<and>
   ResourceOwner_id 2 (demo_state 0) = 2 \<and>
   ResourceOwner_id 2 (set_m_name 2 ''id1'' (set_m_id 2 1 (demo_state 0))) = 1 \<and>
   ResourceOwner_name 2 (demo_state 0) = ''id2'' \<and>
   ResourceOwner_name 2 (set_m_name 2 ''id1'' (set_m_id 2 1 (demo_state 0))) = ''id1''"
proof -
  have "ResourceOwner_copy_assign 2 1 (NameCopied 0) (demo_state 0) =
     Thrown (set_m_name 2 ''id1'' (set_m_id 2 1 (demo_state 0)))"
    apply (simp add: ResourceOwner_copy_assign_def Let_def new_Resource_def)
    apply (rule state.equality; simp add: fun_eq_iff)
    done
  then show ?thesis by (simp add: ResourceOwner_id_def ResourceOwner_name_def)
qed

text \<open>
  Claim C8. In a state where the ownership discipline holds, move assignment of a live owner
  to itself returns the reference to it, having released the resource it owned (if any) once
  and left its handle null; the owner is still live and the discipline holds, so there is no
  dangling handle and no leak. Its destructor then returns and releases nothing more: the
  resource it owned stands exactly once in the log of releases.
\<close>

theorem self_move_assign_safe:
  assumes ok: "ownership_ok st" and l: "A \<in> live st"
  shows "\<exists>s s'. ResourceOwner_move_assign A A leftover st = Returned A s \<and>
     A \<in> live s \<and> ownership_ok s \<and> ResourceOwner_resource A s = None \<and>
     ResourceOwner_id A s = ResourceOwner_id A st \<and>
     released s = released st @ (case ResourceOwner_resource A st of None \<Rightarrow> [] | Some p \<Rightarrow> [p]) \<and>
     heap s = (case ResourceOwner_resource A st of None \<Rightarrow> heap st
               | Some p \<Rightarrow> (heap st)(p := None)) \<and>
     next_addr s = next_addr st \<and>
     ResourceOwner_dtor A s = Returned () s' \<and> ownership_ok s' \<and>
     released s' = released s \<and> heap s' = heap s \<and>
     (\<forall>p. ResourceOwner_resource A st = Some p \<longrightarrow>
        count_list (released s') p = 1 \<and> heap s' p = None)"
proof (cases "m_resource (objs st A)")
  case None
  let ?s = "st\<lparr>objs := (objs st)(A := (objs st A)\<lparr>m_name := leftover\<rparr>)\<rparr>"
  have eq: "ResourceOwner_move_assign A A leftover st = Returned A ?s"
    by (rule self_move_assign_null [OF l None])
  have ok': "ownership_ok ?s"
    using move_assign_keeps [OF ok, of A A leftover] unfolding eq by (simp add: keeps_ownership_def)
  have lA: "A \<in> live ?s" using l by simp
  have nA: "m_resource (objs ?s A) = None" using None by simp
  have dt: "ResourceOwner_dtor A ?s = Returned () (?s\<lparr>live := live ?s - {A}\<rparr>)"
    by (rule dtor_null [OF lA nA])
  have ok'': "ownership_ok (?s\<lparr>live := live ?s - {A}\<rparr>)"
    using dtor_keeps [OF ok', of A] unfolding dt by (simp add: keeps_ownership_def)
  show ?thesis
    unfolding eq using ok' ok'' lA dt None
    by (simp add: ResourceOwner_id_def ResourceOwner_resource_def)
next
  case (Some p)
  from ok_heap [OF ok l Some] obtain r where r: "heap st p = Some r" ..
  let ?s = "st\<lparr>objs := (objs st)(A := (objs st A)\<lparr>m_name := leftover, m_resource := None\<rparr>),
           heap := (heap st)(p := None), free_store := Suc (free_store st),
           released := released st @ [p]\<rparr>"
  have eq: "ResourceOwner_move_assign A A leftover st = Returned A ?s"
    by (rule self_move_assign_release [OF l Some r])
  have ok': "ownership_ok ?s"
    using move_assign_keeps [OF ok, of A A leftover] unfolding eq by (simp add: keeps_ownership_def)
  have lA: "A \<in> live ?s" using l by simp
  have nA: "m_resource (objs ?s A) = None" by simp
  have dt: "ResourceOwner_dtor A ?s = Returned () (?s\<lparr>live := live ?s - {A}\<rparr>)"
    by (rule dtor_null [OF lA nA])
  have ok'': "ownership_ok (?s\<lparr>live := live ?s - {A}\<rparr>)"
    using dtor_keeps [OF ok', of A] unfolding dt by (simp add: keeps_ownership_def)
  have "p \<in> set (released (?s\<lparr>live := live ?s - {A}\<rparr>))" by simp
  with ok'' have once: "count_list (released (?s\<lparr>live := live ?s - {A}\<rparr>)) p = 1"
    by (rule ok_released_once)
  show ?thesis
    unfolding eq using ok' ok'' lA dt Some once
    by (simp add: ResourceOwner_id_def ResourceOwner_resource_def)
qed

theorem self_move_assign_safe_witness:
  "ownership_ok (demo_state 0) \<and> 1 \<in> live (demo_state 0) \<and>
   ResourceOwner_resource 1 (demo_state 0) = Some 0 \<and>
   (\<exists>s s'. ResourceOwner_move_assign 1 1 [] (demo_state 0) = Returned 1 s \<and>
        ResourceOwner_resource 1 s = None \<and> released s = [0] \<and>
        ResourceOwner_dtor 1 s = Returned () s' \<and> released s' = [0] \<and>
        count_list (released s') 0 = 1 \<and> heap s' 0 = None)"
proof -
  have l: "(1::nat) \<in> live (demo_state 0)" by simp
  from self_move_assign_safe [OF ok_demo l, of "[]"]
  have "\<exists>s s'. ResourceOwner_move_assign 1 1 [] (demo_state 0) = Returned 1 s \<and>
        ResourceOwner_resource 1 s = None \<and> released s = [0] \<and>
        ResourceOwner_dtor 1 s = Returned () s' \<and> released s' = [0] \<and>
        count_list (released s') 0 = 1 \<and> heap s' 0 = None"
    by auto
  with ok_demo l show ?thesis by simp
qed


text \<open>
  Claim C9. The member \<open>swap\<close> of two live owners (which may be the same object) returns,
  with the ids, the names and the resource handles of the two exchanged, every other object,
  the heap, the number of allocations made, the free store and the log of releases
  unchanged; a second \<open>swap\<close> of the same two gives back the state before the first; and
  the free function \<open>swap\<close> is the member \<open>swap\<close>.
\<close>

theorem swap_exchanges_and_is_involution:
  assumes "a \<in> live st" "b \<in> live st"
  shows "\<exists>s. ResourceOwner_swap a b st = Returned () s \<and>
     ResourceOwner_id a s = ResourceOwner_id b st \<and> ResourceOwner_id b s = ResourceOwner_id a st \<and>
     ResourceOwner_name a s = ResourceOwner_name b st \<and>
     ResourceOwner_name b s = ResourceOwner_name a st \<and>
     ResourceOwner_resource a s = ResourceOwner_resource b st \<and>
     ResourceOwner_resource b s = ResourceOwner_resource a st \<and>
     (\<forall>x. x \<noteq> a \<and> x \<noteq> b \<longrightarrow> objs s x = objs st x) \<and>
     live s = live st \<and> heap s = heap st \<and> next_addr s = next_addr st \<and>
     free_store s = free_store st \<and> released s = released st \<and>
     ResourceOwner_swap a b s = Returned () st \<and>
     swap a b st = ResourceOwner_swap a b st"
proof -
  let ?s = "st\<lparr>objs := (objs st)(a := objs st b, b := objs st a)\<rparr>"
  have eq: "ResourceOwner_swap a b st = Returned () ?s"
    by (rule ResourceOwner_swap_closed [OF assms])
  have l: "a \<in> live ?s" "b \<in> live ?s" using assms by simp_all
  have again: "ResourceOwner_swap a b ?s = Returned () st"
    unfolding ResourceOwner_swap_closed [OF l]
    by (auto intro!: state.equality simp add: fun_eq_iff)
  show ?thesis
    unfolding eq using again
    by (auto simp add: ResourceOwner_id_def ResourceOwner_name_def ResourceOwner_resource_def
        swap_def eq)
qed

theorem swap_exchanges_and_is_involution_witness:
  "(1::nat) \<in> live (demo_state 0) \<and> (2::nat) \<in> live (demo_state 0) \<and>
   (\<exists>s. ResourceOwner_swap 1 2 (demo_state 0) = Returned () s \<and>
        ResourceOwner_id 1 s = 2 \<and> ResourceOwner_id 2 s = 1 \<and>
        ResourceOwner_name 1 s = ''id2'' \<and> ResourceOwner_name 2 s = ''id1'' \<and>
        ResourceOwner_resource 1 s = None \<and> ResourceOwner_resource 2 s = Some 0 \<and>
        ResourceOwner_swap 1 2 s = Returned () (demo_state 0))"
proof -
  have h: "(1::nat) \<in> live (demo_state 0)" "(2::nat) \<in> live (demo_state 0)" by simp_all
  from swap_exchanges_and_is_involution [OF h] h show ?thesis
    by (auto simp add: ResourceOwner_id_def ResourceOwner_name_def ResourceOwner_resource_def)
qed


text \<open>
  Claim C10. The move constructor and the move assignment operator of \<open>Resource\<close> build the
  Resource that the copy constructor and the copy assignment operator build, with the
  payload of the donor, and leave the donor as it was.
\<close>

theorem Resource_move_is_copy:
  "Resource_move_ctor r = (Resource_copy_ctor r, r) \<and>
   Resource_move_assign t r = (Resource_copy_assign t r, r) \<and>
   Resource_get (fst (Resource_move_ctor r)) = Resource_get r \<and>
   Resource_get (snd (Resource_move_ctor r)) = Resource_get r \<and>
   Resource_get (fst (Resource_move_assign t r)) = Resource_get r \<and>
   Resource_get (snd (Resource_move_assign t r)) = Resource_get r"
  by (simp add: Resource_move_ctor_def Resource_copy_ctor_def Resource_move_assign_def
      Resource_copy_assign_def Resource_get_def)

end
